theory Spec2Isabelle
  imports Main "HOL-Library.Word"
begin

unbundle bit_operations_syntax

section \<open>Package common: flags, properties, configuration, errors\<close>

text \<open>
  Go's \<open>uint\<close> is taken at its width on the 64-bit targets the project is built for;
  \<open>+\<close> and \<open>-\<close> on it wrap around, exactly as on \<open>64 word\<close>. A \<open>[]byte\<close> is a
  byte list option, \<open>None\<close> being the \<open>nil\<close> slice, which the code tells apart from
  the empty slice.
\<close>

type_synonym uint = "64 word"
type_synonym uint32 = "32 word"
type_synonym byte = "8 word"
type_synonym bytes = "byte list option"

definition lenBytes :: "bytes \<Rightarrow> nat" where
  "lenBytes b = (case b of None \<Rightarrow> 0 | Some xs \<Rightarrow> length xs)"

type_synonym SecurityFlag = "32 word"

definition SecNoPlainText :: SecurityFlag where "SecNoPlainText = 1"
definition SecNoActive :: SecurityFlag where "SecNoActive = 2"
definition SecNoDictionary :: SecurityFlag where "SecNoDictionary = 4"
definition SecForwardSecrecy :: SecurityFlag where "SecForwardSecrecy = 8"
definition SecNoAnonymous :: SecurityFlag where "SecNoAnonymous = 16"
definition SecPassCredentials :: SecurityFlag where "SecPassCredentials = 32"
definition SecMutualAuth :: SecurityFlag where "SecMutualAuth = 64"

type_synonym Feature = "32 word"

definition FeatNeedServerFQDN :: Feature where "FeatNeedServerFQDN = 1"
definition FeatWantClientFirst :: Feature where "FeatWantClientFirst = 2"
definition FeatServerFirst :: Feature where "FeatServerFirst = 4"
definition FeatDontUseUserPassword :: Feature where "FeatDontUseUserPassword = 8"
definition FeatGSSFraming :: Feature where "FeatGSSFraming = 16"
definition FeatSupportsHTTP :: Feature where "FeatSupportsHTTP = 32"
definition FeatChannelBindings :: Feature where "FeatChannelBindings = 64"

record MechProps =
  MaxSSF :: uint
  SecurityProperties :: SecurityFlag
  Fearures :: Feature

text \<open>The zero value \<open>common.MechProps{}\<close>.\<close>

definition MechProps_zero :: MechProps where
  "MechProps_zero = \<lparr>MaxSSF = 0, SecurityProperties = 0, Fearures = 0\<rparr>"

record ContextParams =
  SSF :: uint
  MaxPeerMessageSize :: uint32

text \<open>
  Modelled from the spec: the declaration of \<open>common.ChannelBinding\<close> is not among the
  sources; the code reads its fields \<open>Data\<close> and \<open>Critical\<close>, the spec's optional
  channel-binding request (\<open>data\<close>, \<open>critical\<close> flag).
\<close>

record ChannelBinding =
  Data :: bytes
  Critical :: bool

text \<open>
  \<open>common.MechConfig\<close>, without its logger (logging has no effect on any result). Its
  fields \<open>MaxSSF\<close> and \<open>ChannelBinding\<close> are \<open>cfgMaxSSF\<close> and \<open>cfgChannelBinding\<close> here,
  apart from the field of \<open>MechProps\<close> and from the type of the same names.
\<close>

record MechConfig =
  Service :: string
  ServerFQDN :: string
  MinSSF :: uint
  cfgMaxSSF :: uint
  MaxBufSize :: uint
  ExternalSSF :: uint
  SecProps :: SecurityFlag
  HTTPMode :: bool
  ExtraProps :: "string \<rightharpoonup> string"
  cfgChannelBinding :: "ChannelBinding option"

text \<open>
  Errors are values. The four sentinel errors and \<open>ErrTooWeak\<close> are those of
  \<open>common/errors.go\<close>; the others stand for the \<open>errors.New\<close> and \<open>fmt.Errorf\<close>
  values of the code, named by what they report:
  \<^item> \<open>ErrServerFQDN\<close>: "server FQDN not provided";
  \<^item> \<open>ErrBadToken n\<close>: "gssapi: bad SSF negotiate token (n bytes, wanted 4)";
  \<^item> \<open>ErrNoSecurityLayer\<close>: "no suitable security layer available";
  \<^item> \<open>ErrEncodeNoLayer\<close>, \<open>ErrDecodeNoLayer\<close>: "can't encode data: no security layer
    negotiated" and its decode twin;
  \<^item> \<open>ErrBadState s\<close>: "gssapi: step - bad state (s)";
  \<^item> \<open>ErrGSS e\<close>: the error \<open>e\<close> returned by the external GSSAPI library, which knows
    none of this package's error values;
  \<^item> \<open>PanicNilMech\<close>: the run-time panic of a method call on a nil \<open>common.Mech\<close>.
\<close>

datatype error =
    ErrNoMech
  | ErrNotStarted
  | ErrAlreadyEstablished
  | ErrNotEstablished
  | ErrTooWeak (MechSSF: uint) (ExtSSF: uint) (RequiredSSF: uint)
  | ErrServerFQDN
  | ErrBadToken nat
  | ErrNoSecurityLayer
  | ErrEncodeNoLayer
  | ErrDecodeNoLayer
  | ErrBadState byte
  | ErrGSS string
  | PanicNilMech

text \<open>A Go result pair \<open>(token, err)\<close>: both components are returned as the code sets them.\<close>

type_synonym result = "bytes \<times> error option"

text \<open>
  The interface \<open>common.Mech\<close>: a table of methods over the instance state \<open>'s\<close>.
  A method with a pointer receiver returns the instance as it leaves it. The method
  \<open>ContextParams\<close> is \<open>GetContextParams\<close> here, apart from the type of its result.
\<close>

record 's Mech =
  Name :: "'s \<Rightarrow> string"
  MechProperties :: "'s \<Rightarrow> MechProps"
  IsEstablished :: "'s \<Rightarrow> bool"
  GetContextParams :: "'s \<Rightarrow> ContextParams"
  Step :: "'s \<Rightarrow> bytes \<Rightarrow> result \<times> 's"
  Encode :: "'s \<Rightarrow> bytes \<Rightarrow> result \<times> 's"
  Decode :: "'s \<Rightarrow> bytes \<Rightarrow> result \<times> 's"

section \<open>Package registry\<close>

text \<open>The regular expression \<open>^[A-Z0-9-_]{1,20}$\<close> of RFC 4422, section 3.1.\<close>

definition mechNameChar :: "char \<Rightarrow> bool" where
  "mechNameChar ch \<longleftrightarrow>
     (let n = of_char ch :: nat in
      (65 \<le> n \<and> n \<le> 90) \<or> (48 \<le> n \<and> n \<le> 57) \<or> n = 45 \<or> n = 95)"

definition saslMechRegexp :: "string \<Rightarrow> bool" where
  "saslMechRegexp nm \<longleftrightarrow> 1 \<le> length nm \<and> length nm \<le> 20 \<and> list_all mechNameChar nm"

record 's registry_mech =
  factory :: "MechConfig \<Rightarrow> 's"
  properties :: MechProps

type_synonym 's registry = "string \<rightharpoonup> 's registry_mech"

datatype registry_panic = BadMechName string | DuplicateMech string

definition Register ::
  "'s registry \<Rightarrow> string \<Rightarrow> (MechConfig \<Rightarrow> 's) \<Rightarrow> MechProps \<Rightarrow> registry_panic + 's registry" where
  "Register mechs nm f props =
     (if \<not> saslMechRegexp nm then Inl (BadMechName nm)
      else if mechs nm \<noteq> None then Inl (DuplicateMech nm)
      else Inr (mechs(nm \<mapsto> \<lparr>factory = f, properties = props\<rparr>)))"

definition IsRegistered :: "'s registry \<Rightarrow> string \<Rightarrow> bool" where
  "IsRegistered mechs nm = (mechs nm \<noteq> None)"

definition NewMech :: "'s registry \<Rightarrow> string \<Rightarrow> MechConfig \<Rightarrow> 's option" where
  "NewMech mechs nm cfg = (case mechs nm of Some m \<Rightarrow> Some (factory m cfg) | None \<Rightarrow> None)"

definition Properties :: "'s registry \<Rightarrow> string \<Rightarrow> MechProps" where
  "Properties mechs nm = (case mechs nm of Some m \<Rightarrow> properties m | None \<Rightarrow> MechProps_zero)"

text \<open>
  \<open>Mechs\<close> appends the keys met by \<open>for name := range mechs\<close>. Go visits every key of a
  map once, in an order the language leaves unspecified and that may differ from one
  \<open>range\<close> to the next, so the operation is a relation: \<open>Mechs mechs l\<close> holds for every
  list \<open>l\<close> a call may return.
\<close>

definition Mechs :: "'s registry \<Rightarrow> string list \<Rightarrow> bool" where
  "Mechs mechs l \<longleftrightarrow> distinct l \<and> set l = dom mechs"

section \<open>Package sasl: the client session\<close>

record externalProperties =
  ssf :: uint

record 's SaslClient =
  mech :: "'s option"
  service :: string
  mechList :: "string list"
  serverFQDN :: string
  minSSF :: uint
  maxSSF :: uint
  maxBufSize :: uint
  secProps :: SecurityFlag
  extProps :: externalProperties
  needHTTP :: bool
  channelBindings :: "ChannelBinding option"
  extraProps :: "string \<rightharpoonup> string"

datatype channelBindingDisposition =
  channelBindingDispNone | channelBindingDispWant | channelBindingDispMust

text \<open>
  An option mutates the client through a pointer and returns an error or \<open>nil\<close>. The
  options that set loggers, and \<open>WithServerFQDN\<close> with its host name syntax, are left out:
  a server name is set in the client record directly.
\<close>

type_synonym 's SaslClientOption = "'s SaslClient \<Rightarrow> 's SaslClient \<times> error option"

definition WithMechList :: "string list \<Rightarrow> 's SaslClientOption" where
  "WithMechList mechs c = (if length mechs > 0 then (c\<lparr>mechList := mechs\<rparr>, None) else (c, None))"

definition WithMinSSF :: "uint \<Rightarrow> 's SaslClientOption" where
  "WithMinSSF n c = (c\<lparr>minSSF := n\<rparr>, None)"

definition WithMaxSSF :: "uint \<Rightarrow> 's SaslClientOption" where
  "WithMaxSSF n c = (c\<lparr>maxSSF := n\<rparr>, None)"

definition WithNeedHTTP :: "'s SaslClientOption" where
  "WithNeedHTTP c = (c\<lparr>needHTTP := True\<rparr>, None)"

definition WithChannelBindings :: "ChannelBinding \<Rightarrow> 's SaslClientOption" where
  "WithChannelBindings cb c = (c\<lparr>channelBindings := Some cb\<rparr>, None)"

definition WithMaxBufSize :: "uint \<Rightarrow> 's SaslClientOption" where
  "WithMaxBufSize n c = (c\<lparr>maxBufSize := n\<rparr>, None)"

definition WithSecurityProps :: "SecurityFlag \<Rightarrow> 's SaslClientOption" where
  "WithSecurityProps props c =
     (c\<lparr>secProps := props AND (SecNoPlainText OR SecNoActive OR SecNoDictionary OR
        SecForwardSecrecy OR SecNoAnonymous OR SecPassCredentials OR SecMutualAuth)\<rparr>, None)"

definition WithExtraProps :: "string \<Rightarrow> string \<Rightarrow> 's SaslClientOption" where
  "WithExtraProps k v c = (c\<lparr>extraProps := (extraProps c)(k \<mapsto> v)\<rparr>, None)"

text \<open>The loop over the options of \<open>NewSaslClient\<close>: it returns at the first error.\<close>

fun applyOptions :: "'s SaslClientOption list \<Rightarrow> 's SaslClient \<Rightarrow> 's SaslClient \<times> error option" where
  "applyOptions [] c = (c, None)"
| "applyOptions (opt # opts) c =
     (case opt c of
        (c', Some e) \<Rightarrow> (c', Some e)
      | (c', None) \<Rightarrow> applyOptions opts c')"

text \<open>
  \<open>NewSaslClient\<close>. Its second argument is the list that the call \<open>registry.Mechs()\<close>
  returns when the caller gave no mechanism list (any \<open>l\<close> with \<open>Mechs mechs l\<close>).
\<close>

definition NewSaslClient ::
  "'s registry \<Rightarrow> string list \<Rightarrow> string \<Rightarrow> 's SaslClientOption list \<Rightarrow> 's SaslClient \<times> error option" where
  "NewSaslClient mechs allMechs svc opts =
     (let client = \<lparr>mech = None, service = svc, mechList = [], serverFQDN = [],
                     minSSF = 0, maxSSF = NOT 0, maxBufSize = 65536,
                     secProps = SecNoAnonymous OR SecNoPlainText,
                     extProps = \<lparr>ssf = 0\<rparr>, needHTTP = False, channelBindings = None,
                     extraProps = Map.empty\<rparr>
      in case applyOptions opts client of
           (client, Some e) \<Rightarrow> (client, Some e)
         | (client, None) \<Rightarrow>
             (let client =
                (if length (mechList client) > 0
                 then client\<lparr>mechList := filter (IsRegistered mechs) (mechList client)\<rparr>
                 else client\<lparr>mechList := allMechs\<rparr>)
              in if length (mechList client) = 0 then (client, Some ErrNoMech)
                 else (client, None)))"

definition SaslClient_IsEstablished :: "'s Mech \<Rightarrow> 's SaslClient \<Rightarrow> bool" where
  "SaslClient_IsEstablished ops c =
     (case mech c of Some m \<Rightarrow> IsEstablished ops m | None \<Rightarrow> False)"

definition SaslClient_Step :: "'s Mech \<Rightarrow> 's SaslClient \<Rightarrow> bytes \<Rightarrow> result \<times> 's SaslClient" where
  "SaslClient_Step ops c inToken =
     (case mech c of
        None \<Rightarrow> ((None, Some ErrNotStarted), c)
      | Some m \<Rightarrow>
          if SaslClient_IsEstablished ops c then ((None, Some ErrAlreadyEstablished), c)
          else (case Step ops m inToken of (r, m') \<Rightarrow> (r, c\<lparr>mech := Some m'\<rparr>)))"

fun supportsChannelBindings :: "'s registry \<Rightarrow> string list \<Rightarrow> bool" where
  "supportsChannelBindings mechs [] = False"
| "supportsChannelBindings mechs (nm # rest) =
     (if Fearures (Properties mechs nm) AND FeatChannelBindings > 0 then True
      else supportsChannelBindings mechs rest)"

text \<open>The method \<open>channelBindingDisposition\<close>, a port of Cyrus SASL's policy.\<close>

definition channelBindingDisposition_of ::
  "'s registry \<Rightarrow> 's SaslClient \<Rightarrow> channelBindingDisposition \<times> error option" where
  "channelBindingDisposition_of mechs c =
     (let serverSupported = supportsChannelBindings mechs (mechList c)
      in case channelBindings c of
           None \<Rightarrow> (channelBindingDispNone, None)
         | Some cb \<Rightarrow>
             if length (mechList c) > 0 then
               (if \<not> serverSupported \<and> Critical cb then (channelBindingDispNone, Some ErrNoMech)
                else (channelBindingDispWant, None))
             else if Critical cb then (channelBindingDispMust, None)
             else (channelBindingDispNone, None))"

text \<open>
  The loop of \<open>Start\<close> over \<open>c.mechList\<close> (the local \<open>minSSF\<close> is \<open>need\<close> here): each
  \<open>continue\<close> is the recursive call, the \<open>break\<close> returns the name, and the empty
  string is the initial value of \<open>chosenMech\<close>.
\<close>

fun Start_chosenMech ::
  "'s registry \<Rightarrow> 's SaslClient \<Rightarrow> uint \<Rightarrow> channelBindingDisposition \<Rightarrow> string list \<Rightarrow> string" where
  "Start_chosenMech mechs c need cbDisposition [] = []"
| "Start_chosenMech mechs c need cbDisposition (nm # rest) =
     (let mechProps = Properties mechs nm in
      if need > MaxSSF mechProps then Start_chosenMech mechs c need cbDisposition rest
      else
        let wantSecProps =
              (if ssf (extProps c) > minSSF c \<and> ssf (extProps c) > 1
               then secProps c AND NOT SecNoPlainText else secProps c)
        in
        if (wantSecProps XOR SecurityProperties mechProps) AND wantSecProps \<noteq> 0
          then Start_chosenMech mechs c need cbDisposition rest
        else if cbDisposition = channelBindingDispMust \<and>
                Fearures mechProps AND FeatChannelBindings = 0
          then Start_chosenMech mechs c need cbDisposition rest
        else if Fearures mechProps AND FeatNeedServerFQDN \<noteq> 0 \<and> serverFQDN c = []
          then Start_chosenMech mechs c need cbDisposition rest
        else if needHTTP c \<and> Fearures mechProps AND FeatSupportsHTTP = 0
          then Start_chosenMech mechs c need cbDisposition rest
        else nm)"

text \<open>
  The rest of \<open>Start\<close> once \<open>chosenMech\<close> is not empty: the instance is built by the
  registry and, unless the mechanism is server-first, the first step runs. A name the
  registry does not know gives a nil \<open>common.Mech\<close>, on which the next line panics.
\<close>

definition Start_instantiate ::
  "'s Mech \<Rightarrow> 's registry \<Rightarrow> 's SaslClient \<Rightarrow> string \<Rightarrow> result \<times> 's SaslClient" where
  "Start_instantiate ops mechs c chosenMech =
     (let cfg = \<lparr>Service = service c, ServerFQDN = serverFQDN c, MinSSF = minSSF c,
                  cfgMaxSSF = maxSSF c, MaxBufSize = maxBufSize c,
                  ExternalSSF = ssf (extProps c), SecProps = secProps c,
                  HTTPMode = needHTTP c, ExtraProps = extraProps c,
                  cfgChannelBinding = channelBindings c\<rparr>
      in case NewMech mechs chosenMech cfg of
           None \<Rightarrow> ((None, Some PanicNilMech), c)
         | Some m \<Rightarrow>
             (let c = c\<lparr>mech := Some m\<rparr>;
                  mechProps = MechProperties ops m
              in if Fearures mechProps AND FeatServerFirst \<noteq> 0 then ((None, None), c)
                 else SaslClient_Step ops c None))"

text \<open>The local \<open>minSSF\<close> of \<open>Start\<close>: the strength still needed beyond the external layer.\<close>

definition Start_need :: "'s SaslClient \<Rightarrow> uint" where
  "Start_need c = (if minSSF c < ssf (extProps c) then 0 else minSSF c - ssf (extProps c))"

definition SaslClient_Start :: "'s Mech \<Rightarrow> 's registry \<Rightarrow> 's SaslClient \<Rightarrow> result \<times> 's SaslClient" where
  "SaslClient_Start ops mechs c0 =
     (let c = c0\<lparr>mech := None\<rparr>;
          need = Start_need c
      in case channelBindingDisposition_of mechs c of
           (cbDisposition, Some e) \<Rightarrow> ((None, Some e), c)
         | (cbDisposition, None) \<Rightarrow>
             (let chosenMech = Start_chosenMech mechs c need cbDisposition (mechList c)
              in if chosenMech = [] then ((None, Some ErrNoMech), c)
                 else Start_instantiate ops mechs c chosenMech))"

definition SaslClient_Encode :: "'s Mech \<Rightarrow> 's SaslClient \<Rightarrow> bytes \<Rightarrow> result \<times> 's SaslClient" where
  "SaslClient_Encode ops c input =
     (case mech c of
        None \<Rightarrow> ((None, Some ErrNotStarted), c)
      | Some m \<Rightarrow>
          if \<not> SaslClient_IsEstablished ops c then ((None, Some ErrNotEstablished), c)
          else if SSF (GetContextParams ops m) = 0 then ((input, None), c)
          else (case Encode ops m input of (r, m') \<Rightarrow> (r, c\<lparr>mech := Some m'\<rparr>)))"

definition SaslClient_Decode :: "'s Mech \<Rightarrow> 's SaslClient \<Rightarrow> bytes \<Rightarrow> result \<times> 's SaslClient" where
  "SaslClient_Decode ops c inputToken =
     (case mech c of
        None \<Rightarrow> ((None, Some ErrNotStarted), c)
      | Some m \<Rightarrow>
          if \<not> SaslClient_IsEstablished ops c then ((None, Some ErrNotEstablished), c)
          else if SSF (GetContextParams ops m) = 0 then ((inputToken, None), c)
          else (case Decode ops m inputToken of (r, m') \<Rightarrow> (r, c\<lparr>mech := Some m'\<rparr>)))"

section \<open>Package gssapi: the GSSAPI mechanism\<close>

text \<open>
  The external security context (\<open>gssapi.Mech\<close> of the go-gssapi library) is a
  collaborator: a table of operations over its state \<open>'c\<close>, each returning the state as
  it leaves it (the four queries \<open>IsEstablished\<close>, \<open>ContextFlags\<close>, \<open>SSF\<close> and
  \<open>WrapSizeLimit\<close> only read it), and the library's four context-flag constants the code
  names. An error of the library is a value of its own type, embedded by \<open>ErrGSS\<close>.
\<close>

type_synonym ContextFlag = "32 word"
type_synonym gss_error = string
type_synonym gss_result = "bytes \<times> gss_error option"

definition gssErr :: "gss_error option \<Rightarrow> error option" where
  "gssErr e = map_option ErrGSS e"

record GSSChannelBinding =
  gssData :: bytes

record 'c GSSClient =
  gss_Initiate :: "'c \<Rightarrow> string \<Rightarrow> ContextFlag \<Rightarrow> GSSChannelBinding option \<Rightarrow> gss_error option \<times> 'c"
  gss_Continue :: "'c \<Rightarrow> bytes \<Rightarrow> gss_result \<times> 'c"
  gss_IsEstablished :: "'c \<Rightarrow> bool"
  gss_ContextFlags :: "'c \<Rightarrow> ContextFlag"
  gss_Unwrap :: "'c \<Rightarrow> bytes \<Rightarrow> (bytes \<times> bool \<times> gss_error option) \<times> 'c"
  gss_Wrap :: "'c \<Rightarrow> bytes \<Rightarrow> bool \<Rightarrow> gss_result \<times> 'c"
  gss_SSF :: "'c \<Rightarrow> uint"
  gss_WrapSizeLimit :: "'c \<Rightarrow> uint32 \<Rightarrow> bool \<Rightarrow> uint32"
  ContextFlagMutual :: ContextFlag
  ContextFlagSequence :: ContextFlag
  ContextFlagInteg :: ContextFlag
  ContextFlagConf :: ContextFlag

type_synonym qop = byte

definition layerNone :: qop where "layerNone = 1"
definition layerIntegrity :: qop where "layerIntegrity = 2"
definition layerConfidentiality :: qop where "layerConfidentiality = 4"

type_synonym state = byte

definition stateAuthenticating :: state where "stateAuthenticating = 0"
definition stateSSFCap :: state where "stateSSFCap = 1"
definition stateAuthenticated :: state where "stateAuthenticated = 2"

text \<open>The field \<open>ssf\<close> of the mechanism is \<open>mech_ssf\<close> here, apart from the client's.\<close>

record 'c GSSAPIMech =
  config :: MechConfig
  client :: 'c
  qop :: qop
  mech_ssf :: uint
  state :: state
  maxOutputBufferSz :: uint32

text \<open>\<open>gssapi.NewMech\<close>; the fresh external context is the argument \<open>cl\<close>.\<close>

definition gssapi_NewMech :: "'c \<Rightarrow> MechConfig \<Rightarrow> 'c GSSAPIMech" where
  "gssapi_NewMech cl cfg =
     \<lparr>config = cfg, client = cl, qop = 0, mech_ssf = 0, state = stateAuthenticating,
      maxOutputBufferSz = 0\<rparr>"

definition isTrue :: "string \<Rightarrow> bool" where
  "isTrue val \<longleftrightarrow> val = ''1'' \<or> val = ''y'' \<or> val = ''on'' \<or> val = ''t''"

definition minUint :: "uint \<Rightarrow> uint \<Rightarrow> uint" where
  "minUint a b = (if a < b then a else b)"

text \<open>
  The block of \<open>stepAuthenticating\<close> run on the first call only (\<open>inToken == nil\<close>): a
  \<open>return\<close> inside it is \<open>Inl\<close>, falling through with the new \<open>inToken\<close> is \<open>Inr\<close>.
\<close>

definition stepAuthenticating_first ::
  "'c GSSClient \<Rightarrow> 'c GSSAPIMech \<Rightarrow> (result \<times> 'c GSSAPIMech) + ('c GSSAPIMech \<times> bytes)" where
  "stepAuthenticating_first g m =
     (if length (ServerFQDN (config m)) = 0 then Inl ((None, Some ErrServerFQDN), m)
      else
        let princName = Service (config m) @ ''/'' @ ServerFQDN (config m);
            flags0 = ContextFlagMutual g OR ContextFlagSequence g;
            flags =
              (if cfgMaxSSF (config m) > ExternalSSF (config m) then
                 (if cfgMaxSSF (config m) - ExternalSSF (config m) > 1
                  then flags0 OR ContextFlagInteg g OR ContextFlagConf g
                  else flags0 OR ContextFlagInteg g)
               else flags0);
            gsscb = (case cfgChannelBinding (config m) of
                       None \<Rightarrow> None
                     | Some cb \<Rightarrow> Some \<lparr>gssData = Data cb\<rparr>)
        in case gss_Initiate g (client m) princName flags gsscb of
             (Some e, cl) \<Rightarrow> Inl ((None, Some (ErrGSS e)), m\<lparr>client := cl\<rparr>)
           | (None, cl) \<Rightarrow>
               (let m1 = m\<lparr>client := cl\<rparr>;
                    m2 = (if gss_ContextFlags g (client m1) AND ContextFlagInteg g = 0
                            then m1\<lparr>qop := layerNone\<rparr>
                          else if gss_ContextFlags g (client m1) AND ContextFlagConf g = 0
                            then m1\<lparr>qop := layerNone OR layerIntegrity\<rparr>
                          else m1\<lparr>qop := layerNone OR layerIntegrity OR layerConfidentiality\<rparr>)
                in Inr (m2, Some [])))"

definition stepAuthenticating :: "'c GSSClient \<Rightarrow> 'c GSSAPIMech \<Rightarrow> bytes \<Rightarrow> result \<times> 'c GSSAPIMech" where
  "stepAuthenticating g m inToken =
     (case (if inToken = None then stepAuthenticating_first g m else Inr (m, inToken)) of
        Inl ret \<Rightarrow> ret
      | Inr (m1, inToken1) \<Rightarrow>
          (case gss_Continue g (client m1) inToken1 of
             ((outToken, err), cl) \<Rightarrow>
               (let m2 = m1\<lparr>client := cl\<rparr> in
                if gss_IsEstablished g (client m2) then
                  (if HTTPMode (config m2)
                   then ((outToken, gssErr err), m2\<lparr>state := stateAuthenticated\<rparr>)
                   else ((if outToken = None then Some [] else outToken, gssErr err),
                         m2\<lparr>state := stateSSFCap\<rparr>))
                else ((outToken, gssErr err), m2))))"

text \<open>
  The \<open>switch\<close> of \<open>stepSSFCap\<close> that chooses the quality of protection: \<open>Some\<close> of the
  choice and of the mechanism with its \<open>ssf\<close> set, or \<open>None\<close> for the \<open>default\<close> case.
\<close>

definition stepSSFCap_choice ::
  "'c GSSAPIMech \<Rightarrow> qop \<Rightarrow> uint \<Rightarrow> uint \<Rightarrow> uint \<Rightarrow> (qop \<times> 'c GSSAPIMech) option" where
  "stepSSFCap_choice m serverQOPOffer channelSSF allowedSSF needSSF =
     (if qop m AND layerConfidentiality > 0 \<and> serverQOPOffer AND layerConfidentiality > 0 \<and>
         allowedSSF \<ge> channelSSF \<and> needSSF \<le> channelSSF
      then Some (case ExtraProps (config m) ''ad_compat'' of
                   Some val \<Rightarrow> (if isTrue val then layerConfidentiality OR layerIntegrity
                                else layerConfidentiality)
                 | None \<Rightarrow> layerConfidentiality,
                 m\<lparr>mech_ssf := channelSSF\<rparr>)
      else if qop m AND layerIntegrity > 0 \<and> serverQOPOffer AND layerIntegrity > 0 \<and>
              allowedSSF \<ge> 1 \<and> needSSF \<le> 2
      then Some (layerIntegrity, m\<lparr>mech_ssf := 1\<rparr>)
      else if qop m AND layerNone > 0 \<and> serverQOPOffer AND layerNone > 0 \<and> needSSF \<le> 0
      then Some (layerNone, m\<lparr>mech_ssf := 0\<rparr>)
      else None)"

text \<open>The four bytes \<open>dataOut\<close> of the reply.\<close>

definition stepSSFCap_dataOut :: "MechConfig \<Rightarrow> qop \<Rightarrow> byte list" where
  "stepSSFCap_dataOut cfg qopChoice =
     (let dataOut = [0, 0, 0, 0];
          dataOut =
            (if qopChoice > 1 then
               (let mx = minUint (MaxBufSize cfg) 0xFFFFFF in
                dataOut[1 := ucast (drop_bit 16 mx AND 0xff),
                        2 := ucast (drop_bit 8 mx AND 0xff),
                        3 := ucast (drop_bit 0 mx AND 0xff)])
             else dataOut)
      in dataOut[0 := qopChoice])"

text \<open>
  The expression \<open>uint32(data[1])<<16 | uint32(data[2])<<8 + uint32(data[3])\<close>: in Go
  \<open><<\<close> binds tighter than \<open>|\<close> and \<open>+\<close>, which share one level and associate to the left.
\<close>

definition serverMaxInput :: "byte list \<Rightarrow> uint32" where
  "serverMaxInput data =
     (push_bit 16 (ucast (data ! 1)) OR push_bit 8 (ucast (data ! 2))) + ucast (data ! 3)"

text \<open>
  The locals \<open>allowedSSF\<close> and \<open>needSSF\<close> of \<open>stepSSFCap\<close>: each stays at its zero value
  unless the guard of its assignment holds.
\<close>

definition stepSSFCap_allowedSSF :: "MechConfig \<Rightarrow> uint" where
  "stepSSFCap_allowedSSF cfg =
     (if cfgMaxSSF cfg \<ge> ExternalSSF cfg then cfgMaxSSF cfg - ExternalSSF cfg else 0)"

definition stepSSFCap_needSSF :: "MechConfig \<Rightarrow> uint" where
  "stepSSFCap_needSSF cfg =
     (if MinSSF cfg \<ge> ExternalSSF cfg then MinSSF cfg - ExternalSSF cfg else 0)"

text \<open>
  The end of \<open>stepSSFCap\<close>, after the choice: the peer's buffer size is recorded (and
  clamped by the external context when a layer was negotiated), the reply is built, wrapped
  and returned, and the state becomes \<open>stateAuthenticated\<close>.
\<close>

definition stepSSFCap_finish ::
  "'c GSSClient \<Rightarrow> 'c GSSAPIMech \<Rightarrow> qop \<Rightarrow> byte list \<Rightarrow> result \<times> 'c GSSAPIMech" where
  "stepSSFCap_finish g m2 qopChoice bs =
     (let m3 = m2\<lparr>maxOutputBufferSz := serverMaxInput bs\<rparr>;
          m4 = (if mech_ssf m3 > 0
                then m3\<lparr>maxOutputBufferSz :=
                          gss_WrapSizeLimit g (client m3) (maxOutputBufferSz m3) (mech_ssf m3 > 1)\<rparr>
                else m3);
          dataOut = stepSSFCap_dataOut (config m4) qopChoice
      in case gss_Wrap g (client m4) (Some dataOut) False of
           ((outToken, Some e), cl2) \<Rightarrow> ((None, Some (ErrGSS e)), m4\<lparr>client := cl2\<rparr>)
         | ((outToken, None), cl2) \<Rightarrow>
             ((outToken, None), m4\<lparr>client := cl2, state := stateAuthenticated\<rparr>))"

definition stepSSFCap :: "'c GSSClient \<Rightarrow> 'c GSSAPIMech \<Rightarrow> bytes \<Rightarrow> result \<times> 'c GSSAPIMech" where
  "stepSSFCap g m inToken =
     (case gss_Unwrap g (client m) inToken of
        ((data, conf, Some e), cl) \<Rightarrow> ((None, Some (ErrGSS e)), m\<lparr>client := cl\<rparr>)
      | ((data, conf, None), cl) \<Rightarrow>
          (let m1 = m\<lparr>client := cl\<rparr> in
           if lenBytes data \<noteq> 4 then ((None, Some (ErrBadToken (lenBytes data))), m1)
           else
             let bs = the data;
                 serverQOPOffer = bs ! 0;
                 channelSSF = gss_SSF g (client m1)
             in
             if MinSSF (config m1) > channelSSF + ExternalSSF (config m1)
             then ((None, Some (ErrTooWeak channelSSF (ExternalSSF (config m1)) (MinSSF (config m1)))), m1)
             else
               let allowedSSF = stepSSFCap_allowedSSF (config m1);
                   needSSF = stepSSFCap_needSSF (config m1)
               in
               case stepSSFCap_choice m1 serverQOPOffer channelSSF allowedSSF needSSF of
                 None \<Rightarrow> ((None, Some ErrNoSecurityLayer), m1)
               | Some (qopChoice, m2) \<Rightarrow> stepSSFCap_finish g m2 qopChoice bs))"

definition GSSAPIMech_Step :: "'c GSSClient \<Rightarrow> 'c GSSAPIMech \<Rightarrow> bytes \<Rightarrow> result \<times> 'c GSSAPIMech" where
  "GSSAPIMech_Step g m inToken =
     (if state m = stateAuthenticating then stepAuthenticating g m inToken
      else if state m = stateSSFCap then stepSSFCap g m inToken
      else if state m = stateAuthenticated then ((None, Some ErrAlreadyEstablished), m)
      else ((None, Some (ErrBadState (state m))), m))"

definition GSSAPIMech_IsEstablished :: "'c GSSAPIMech \<Rightarrow> bool" where
  "GSSAPIMech_IsEstablished m = (state m = stateAuthenticated)"

definition GSSAPIMech_ContextParams :: "'c GSSAPIMech \<Rightarrow> ContextParams" where
  "GSSAPIMech_ContextParams m = \<lparr>SSF = mech_ssf m, MaxPeerMessageSize = maxOutputBufferSz m\<rparr>"

definition GSSAPIMech_Encode :: "'c GSSClient \<Rightarrow> 'c GSSAPIMech \<Rightarrow> bytes \<Rightarrow> result \<times> 'c GSSAPIMech" where
  "GSSAPIMech_Encode g m input =
     (if mech_ssf m = 0 then ((None, Some ErrEncodeNoLayer), m)
      else (case gss_Wrap g (client m) input (mech_ssf m > 1) of
              ((outToken, err), cl) \<Rightarrow> ((outToken, gssErr err), m\<lparr>client := cl\<rparr>)))"

definition GSSAPIMech_Decode :: "'c GSSClient \<Rightarrow> 'c GSSAPIMech \<Rightarrow> bytes \<Rightarrow> result \<times> 'c GSSAPIMech" where
  "GSSAPIMech_Decode g m inputToken =
     (if mech_ssf m = 0 then ((None, Some ErrDecodeNoLayer), m)
      else (case gss_Unwrap g (client m) inputToken of
              ((output, conf, err), cl) \<Rightarrow> ((output, gssErr err), m\<lparr>client := cl\<rparr>)))"

text \<open>
  The mechanism as a \<open>common.Mech\<close>, and its registration by \<open>init\<close> under the name
  \<open>GSSAPI\<close>; \<open>MechProperties\<close> reads the registry.
\<close>

definition mechName :: string where
  "mechName = ''GSSAPI''"

definition GSSAPIMech_Mech :: "'c GSSClient \<Rightarrow> 'c GSSAPIMech registry \<Rightarrow> 'c GSSAPIMech Mech" where
  "GSSAPIMech_Mech g mechs =
     \<lparr>Name = (\<lambda>m. mechName),
      MechProperties = (\<lambda>m. Properties mechs mechName),
      IsEstablished = GSSAPIMech_IsEstablished,
      GetContextParams = GSSAPIMech_ContextParams,
      Step = GSSAPIMech_Step g,
      Encode = GSSAPIMech_Encode g,
      Decode = GSSAPIMech_Decode g\<rparr>"

definition gssapi_init :: "'c \<Rightarrow> 'c GSSAPIMech registry \<Rightarrow> registry_panic + 'c GSSAPIMech registry" where
  "gssapi_init cl mechs =
     Register mechs mechName (gssapi_NewMech cl)
       \<lparr>MaxSSF = 256,
        SecurityProperties = SecNoPlainText OR SecNoActive OR SecNoAnonymous OR SecMutualAuth OR
                             SecPassCredentials,
        Fearures = FeatNeedServerFQDN OR FeatWantClientFirst OR FeatChannelBindings\<rparr>"

section \<open>The specification's notions\<close>

text \<open>
  The definitions of this section follow the words of the specification, not the code;
  the theorems below compare the two. A flag word is read as the set of its bits, so that
  "every required property is among the mechanism's" is set inclusion; the no-plaintext
  property is bit 0.
\<close>

definition propSet :: "32 word \<Rightarrow> nat set" where
  "propSet w = {i. bit w i}"

text \<open>The needed additional strength, \<open>max(0, minSSF - externalSSF)\<close>, as a natural number.\<close>

definition spec_neededSSF :: "'s SaslClient \<Rightarrow> nat" where
  "spec_neededSSF c = unat (minSSF c) - unat (ssf (extProps c))"

text \<open>The waiver: the external layer is stronger than the configured minimum and than 1.\<close>

definition spec_waived :: "'s SaslClient \<Rightarrow> bool" where
  "spec_waived c \<longleftrightarrow>
     unat (ssf (extProps c)) > unat (minSSF c) \<and> unat (ssf (extProps c)) > 1"

definition spec_want :: "'s SaslClient \<Rightarrow> nat set" where
  "spec_want c = (if spec_waived c then propSet (secProps c) - {0} else propSet (secProps c))"

text \<open>The five filters of the selection engine, for the descriptor registered under a name.\<close>

definition spec_passes ::
  "'s registry \<Rightarrow> 's SaslClient \<Rightarrow> channelBindingDisposition \<Rightarrow> string \<Rightarrow> bool" where
  "spec_passes mechs c d nm \<longleftrightarrow>
     (let desc = Properties mechs nm in
      unat (MaxSSF desc) \<ge> spec_neededSSF c \<and>
      spec_want c \<subseteq> propSet (SecurityProperties desc) \<and>
      (d = channelBindingDispMust \<longrightarrow> Fearures desc AND FeatChannelBindings \<noteq> 0) \<and>
      (serverFQDN c = [] \<longrightarrow> Fearures desc AND FeatNeedServerFQDN = 0) \<and>
      (needHTTP c \<longrightarrow> Fearures desc AND FeatSupportsHTTP \<noteq> 0))"

section \<open>Fixtures of the test suite\<close>

text \<open>
  The mock mechanisms of \<open>sasl_test.go\<close>, the three registrations of
  \<open>TestSaslClientStart\<close>, and the client that test builds: a mechanism list, a minimum
  strength, and the external strength it then writes into the client.
\<close>

datatype mockMech = mockMech1 | mockMech2 | mockMech3

definition mockMech_Mech :: "mockMech Mech" where
  "mockMech_Mech =
     \<lparr>Name = (\<lambda>m. ''MOCK''),
      MechProperties = (\<lambda>m. MechProps_zero),
      IsEstablished = (\<lambda>m. False),
      GetContextParams = (\<lambda>m. \<lparr>SSF = 0, MaxPeerMessageSize = 0\<rparr>),
      Step = (\<lambda>m inToken. ((None, None), m)),
      Encode = (\<lambda>m input. ((None, None), m)),
      Decode = (\<lambda>m inputToken. ((None, None), m))\<rparr>"

definition testRegistry :: "mockMech registry" where
  "testRegistry =
     [''MECH1'' \<mapsto> \<lparr>factory = (\<lambda>cfg. mockMech1),
                    properties = \<lparr>MaxSSF = 256,
                      SecurityProperties = SecNoPlainText OR SecNoActive OR SecNoAnonymous OR
                                           SecMutualAuth OR SecPassCredentials,
                      Fearures = FeatWantClientFirst OR FeatDontUseUserPassword\<rparr>\<rparr>,
      ''MECH2'' \<mapsto> \<lparr>factory = (\<lambda>cfg. mockMech2),
                    properties = \<lparr>MaxSSF = 0,
                      SecurityProperties = SecNoAnonymous OR SecPassCredentials,
                      Fearures = FeatWantClientFirst\<rparr>\<rparr>,
      ''MECH3'' \<mapsto> \<lparr>factory = (\<lambda>cfg. mockMech3),
                    properties = \<lparr>MaxSSF = 10,
                      SecurityProperties = SecNoPlainText OR SecNoAnonymous OR SecPassCredentials,
                      Fearures = FeatWantClientFirst\<rparr>\<rparr>]"

definition testClient :: "string list \<Rightarrow> uint \<Rightarrow> uint \<Rightarrow> mockMech SaslClient" where
  "testClient l mn ext =
     (fst (NewSaslClient testRegistry [] ''imap'' [WithMechList l, WithMinSSF mn]))
       \<lparr>extProps := \<lparr>ssf = ext\<rparr>\<rparr>"

section \<open>The specification's notions for the GSSAPI handshake\<close>

text \<open>
  The strength the mechanism may add, \<open>max(0, configuredMaxSSF - externalSSF)\<close>, and the
  strength it must add, \<open>max(0, minSSF - externalSSF)\<close>, as natural numbers.
\<close>

definition spec_allowedSSF :: "MechConfig \<Rightarrow> nat" where
  "spec_allowedSSF cfg = unat (cfgMaxSSF cfg) - unat (ExternalSSF cfg)"

definition spec_needSSF :: "MechConfig \<Rightarrow> nat" where
  "spec_needSSF cfg = unat (MinSSF cfg) - unat (ExternalSSF cfg)"

text \<open>
  The three conditions of the priority list, on the locally supported set, the peer's offer
  (bit 0 is none, bit 1 integrity, bit 2 confidentiality) and the channel's strength.
\<close>

definition spec_conf_ok :: "qop \<Rightarrow> qop \<Rightarrow> MechConfig \<Rightarrow> nat \<Rightarrow> bool" where
  "spec_conf_ok supported offered cfg channelSSF \<longleftrightarrow>
     bit supported 2 \<and> bit offered 2 \<and> spec_allowedSSF cfg \<ge> channelSSF \<and>
     spec_needSSF cfg \<le> channelSSF"

definition spec_integ_ok :: "qop \<Rightarrow> qop \<Rightarrow> MechConfig \<Rightarrow> bool" where
  "spec_integ_ok supported offered cfg \<longleftrightarrow>
     bit supported 1 \<and> bit offered 1 \<and> spec_allowedSSF cfg \<ge> 1 \<and> spec_needSSF cfg \<le> 2"

definition spec_none_ok :: "qop \<Rightarrow> qop \<Rightarrow> MechConfig \<Rightarrow> bool" where
  "spec_none_ok supported offered cfg \<longleftrightarrow>
     bit supported 0 \<and> bit offered 0 \<and> spec_needSSF cfg \<le> 0"

text \<open>
  The reply of the wire format: the mask, then the big-endian 24 bits of
  \<open>min(sz, 0xFFFFFF)\<close> when the mask is above "none", and zeros otherwise.
\<close>

definition spec_reply :: "qop \<Rightarrow> nat \<Rightarrow> byte list" where
  "spec_reply q sz =
     (let n = min sz 16777215 in
      if unat q > 1
      then [q, of_nat (n div 65536), of_nat (n div 256 mod 256), of_nat (n mod 256)]
      else [q, 0, 0, 0])"

text \<open>The order of the states, and the handshake driven over a list of input tokens.\<close>

definition state_rank :: "state \<Rightarrow> nat" where
  "state_rank s = unat s"

fun run_steps :: "'c GSSClient \<Rightarrow> 'c GSSAPIMech \<Rightarrow> bytes list \<Rightarrow> 'c GSSAPIMech" where
  "run_steps g m [] = m"
| "run_steps g m (tok # toks) = run_steps g (snd (GSSAPIMech_Step g m tok)) toks"

section \<open>Fixtures for the GSSAPI handshake\<close>

text \<open>
  A stand-in for the external context: established after one \<open>Continue\<close>, wrapping and
  unwrapping by the identity, of a given strength and given granted flags; the flag bits
  are those of RFC 2744. A configuration as \<open>Start\<close> builds it, and a mechanism waiting
  for the peer's offer with a given locally supported set.
\<close>

definition stubGSS :: "uint \<Rightarrow> ContextFlag \<Rightarrow> bool GSSClient" where
  "stubGSS strength granted =
     \<lparr>gss_Initiate = (\<lambda>cl princName flags cb. (None, cl)),
      gss_Continue = (\<lambda>cl inToken. ((None, None), True)),
      gss_IsEstablished = (\<lambda>cl. cl),
      gss_ContextFlags = (\<lambda>cl. granted),
      gss_Unwrap = (\<lambda>cl tok. ((tok, False, None), cl)),
      gss_Wrap = (\<lambda>cl tok conf. ((tok, None), cl)),
      gss_SSF = (\<lambda>cl. strength),
      gss_WrapSizeLimit = (\<lambda>cl n conf. n),
      ContextFlagMutual = 2, ContextFlagSequence = 8,
      ContextFlagInteg = 32, ContextFlagConf = 16\<rparr>"

definition stubConfig :: "uint \<Rightarrow> uint \<Rightarrow> uint \<Rightarrow> uint \<Rightarrow> bool \<Rightarrow> (string \<rightharpoonup> string) \<Rightarrow> MechConfig" where
  "stubConfig mn mx ext buf http extra =
     \<lparr>Service = ''imap'', ServerFQDN = ''foo.bar.com'', MinSSF = mn, cfgMaxSSF = mx,
      MaxBufSize = buf, ExternalSSF = ext, SecProps = SecNoAnonymous OR SecNoPlainText,
      HTTPMode = http, ExtraProps = extra, cfgChannelBinding = None\<rparr>"

definition offerMech :: "MechConfig \<Rightarrow> qop \<Rightarrow> bool GSSAPIMech" where
  "offerMech cfg supported = (gssapi_NewMech True cfg)\<lparr>qop := supported, state := stateSSFCap\<rparr>"

text \<open>
  A mechanism established with no security layer (the peer offered "none" only), a client
  session bound to it, the two registrations of \<open>TestMechs\<close>, and the client that
  \<open>NewSaslClient\<close> builds without options when \<open>registry.Mechs()\<close> returned a given list.
\<close>

definition noLayerMech :: "bool GSSAPIMech" where
  "noLayerMech =
     snd (stepSSFCap (stubGSS 0 0) (offerMech (stubConfig 0 0 0 65536 False Map.empty) 1)
            (Some [1, 0, 0, 0]))"

definition noLayerClient :: "bool GSSAPIMech SaslClient" where
  "noLayerClient = (fst (NewSaslClient Map.empty [] ''imap'' []))\<lparr>mech := Some noLayerMech\<rparr>"

definition mechsTestRegistry :: "mockMech registry" where
  "mechsTestRegistry =
     [''TEST2'' \<mapsto> \<lparr>factory = (\<lambda>cfg. mockMech1), properties = MechProps_zero\<rparr>,
      ''TEST3'' \<mapsto> \<lparr>factory = (\<lambda>cfg. mockMech1), properties = MechProps_zero\<rparr>]"

definition defaultClient :: "string list \<Rightarrow> mockMech SaslClient" where
  "defaultClient allMechs = fst (NewSaslClient testRegistry allMechs ''imap'' [])"

section \<open>Auxiliary facts\<close>

subsection \<open>The constants\<close>

lemmas Sec_defs = SecNoPlainText_def SecNoActive_def SecNoDictionary_def
  SecForwardSecrecy_def SecNoAnonymous_def SecPassCredentials_def SecMutualAuth_def

lemmas Feat_defs = FeatNeedServerFQDN_def FeatWantClientFirst_def FeatServerFirst_def
  FeatDontUseUserPassword_def FeatGSSFraming_def FeatSupportsHTTP_def FeatChannelBindings_def

lemmas layer_defs = layerNone_def layerIntegrity_def layerConfidentiality_def

lemmas state_defs = stateAuthenticating_def stateSSFCap_def stateAuthenticated_def

subsection \<open>Flag words and strengths\<close>

lemma xor_and_zero_iff: "((w XOR p) AND w = 0) \<longleftrightarrow> (w AND p = w)" for w p :: "'a::len word"
  by (auto simp: bit_eq_iff bit_and_iff bit_xor_iff)

lemma propSet_subset_iff: "propSet w \<subseteq> propSet p \<longleftrightarrow> (w AND p = w)"
proof
  assume h: "propSet w \<subseteq> propSet p"
  show "w AND p = w"
    by (rule bit_eqI) (use h in \<open>auto simp: propSet_def bit_and_iff\<close>)
next
  assume h: "w AND p = w"
  show "propSet w \<subseteq> propSet p"
  proof
    fix i assume "i \<in> propSet w"
    then have "bit (w AND p) i" using h by (simp add: propSet_def)
    then show "i \<in> propSet p" by (simp add: propSet_def bit_and_iff)
  qed
qed

lemma propSet_waive: "propSet w - {0} = propSet (w AND NOT SecNoPlainText)"
  by (auto simp: propSet_def SecNoPlainText_def bit_and_iff bit_not_iff bit_1_iff
      dest: bit_imp_le_length)

lemma need_nat: "unat (if (a::uint) < b then 0 else a - b) = unat a - unat b"
  by (auto simp: unat_sub word_less_nat_alt word_le_nat_alt not_less)

lemma gt_nat: "(a::uint) > b \<longleftrightarrow> unat a > unat b"
  by (simp add: word_less_nat_alt)

lemma gt1_nat: "(a::uint) > 1 \<longleftrightarrow> unat a > 1"
  by (simp add: word_less_nat_alt)

subsection \<open>The selection loop\<close>

lemma spec_want_code:
  "spec_want c \<subseteq> propSet p \<longleftrightarrow>
   ((if ssf (extProps c) > minSSF c \<and> ssf (extProps c) > 1
     then secProps c AND NOT SecNoPlainText else secProps c) XOR p) AND
   (if ssf (extProps c) > minSSF c \<and> ssf (extProps c) > 1
     then secProps c AND NOT SecNoPlainText else secProps c) = 0"
  by (simp add: spec_want_def spec_waived_def propSet_waive propSet_subset_iff xor_and_zero_iff
      gt_nat gt1_nat)

lemma Start_chosenMech_step:
  "Start_chosenMech mechs c (Start_need c) d (nm # rest) =
     (if spec_passes mechs c d nm then nm else Start_chosenMech mechs c (Start_need c) d rest)"
proof -
  have n: "Start_need c > MaxSSF (Properties mechs nm) \<longleftrightarrow>
           \<not> unat (MaxSSF (Properties mechs nm)) \<ge> spec_neededSSF c"
  proof -
    have "unat (Start_need c) = unat (minSSF c) - unat (ssf (extProps c))"
      unfolding Start_need_def by (rule need_nat)
    then show ?thesis
      by (simp add: spec_neededSSF_def word_less_nat_alt not_le)
  qed
  show ?thesis
    unfolding Start_chosenMech.simps Let_def n spec_passes_def spec_want_code
    by auto
qed

lemma Start_chosenMech_none:
  "\<forall>nm\<in>set l. \<not> spec_passes mechs c d nm \<Longrightarrow> Start_chosenMech mechs c (Start_need c) d l = []"
  by (induction l) (simp_all add: Start_chosenMech_step del: Start_chosenMech.simps(2))

lemma Start_chosenMech_first:
  "i < length l \<Longrightarrow> spec_passes mechs c d (l ! i) \<Longrightarrow> \<forall>j<i. \<not> spec_passes mechs c d (l ! j) \<Longrightarrow>
   Start_chosenMech mechs c (Start_need c) d l = l ! i"
proof (induction l arbitrary: i)
  case Nil
  then show ?case by simp
next
  case (Cons a l)
  show ?case
  proof (cases i)
    case 0
    with Cons.prems show ?thesis by (simp add: Start_chosenMech_step del: Start_chosenMech.simps(2))
  next
    case (Suc k)
    with Cons.prems have a: "\<not> spec_passes mechs c d a" by auto
    have "Start_chosenMech mechs c (Start_need c) d l = l ! k"
      using Cons.prems Suc by (intro Cons.IH) auto
    with a Suc show ?thesis by (simp add: Start_chosenMech_step del: Start_chosenMech.simps(2))
  qed
qed

lemma spec_passes_mech_upd [simp]:
  "spec_passes mechs (c\<lparr>mech := x\<rparr>) d nm = spec_passes mechs c d nm"
  by (simp add: spec_passes_def spec_want_def spec_waived_def spec_neededSSF_def)

lemma channelBindingDisposition_of_mech_upd [simp]:
  "channelBindingDisposition_of mechs (c\<lparr>mech := x\<rparr>) = channelBindingDisposition_of mechs c"
  by (simp add: channelBindingDisposition_of_def split: option.splits)

lemma saslMechRegexp_nonempty: "saslMechRegexp nm \<Longrightarrow> nm \<noteq> []"
  by (auto simp: saslMechRegexp_def)

subsection \<open>The fixtures\<close>

lemma testClient_simps:
  "mechList (testClient l mn ext) = (if l = [] then [] else filter (IsRegistered testRegistry) l)"
  "minSSF (testClient l mn ext) = mn"
  "ssf (extProps (testClient l mn ext)) = ext"
  "secProps (testClient l mn ext) = SecNoAnonymous OR SecNoPlainText"
  "serverFQDN (testClient l mn ext) = []"
  "needHTTP (testClient l mn ext) = False"
  "channelBindings (testClient l mn ext) = None"
  by (simp_all add: testClient_def NewSaslClient_def WithMechList_def WithMinSSF_def Let_def
      split: prod.splits option.splits)

lemma testRegistry_names: "\<forall>nm\<in>dom testRegistry. saslMechRegexp nm"
  by (simp add: testRegistry_def saslMechRegexp_def mechNameChar_def)

lemma testRegistry_Properties:
  "Properties testRegistry ''MECH1'' = \<lparr>MaxSSF = 256, SecurityProperties = 115, Fearures = 10\<rparr>"
  "Properties testRegistry ''MECH2'' = \<lparr>MaxSSF = 0, SecurityProperties = 48, Fearures = 2\<rparr>"
  "Properties testRegistry ''MECH3'' = \<lparr>MaxSSF = 10, SecurityProperties = 49, Fearures = 2\<rparr>"
  by (simp_all add: testRegistry_def Properties_def Sec_defs Feat_defs)

lemma testRegistry_IsRegistered:
  "IsRegistered testRegistry ''MECH1''" "IsRegistered testRegistry ''MECH2''"
  "IsRegistered testRegistry ''MECH3''"
  by (simp_all add: testRegistry_def IsRegistered_def)

lemma test_passes:
  "spec_passes testRegistry (testClient l 0 0) channelBindingDispNone ''MECH1''"
  "\<not> spec_passes testRegistry (testClient l 0 0) channelBindingDispNone ''MECH2''"
  "spec_passes testRegistry (testClient l 0 0) channelBindingDispNone ''MECH3''"
  by (simp_all add: spec_passes_def spec_want_code spec_neededSSF_def testClient_simps
      testRegistry_Properties Sec_defs Feat_defs Let_def)

lemma Start_instantiate_mech:
  "IsRegistered mechs nm \<Longrightarrow> mech (snd (Start_instantiate ops mechs c nm)) \<noteq> None"
  by (auto simp: Start_instantiate_def IsRegistered_def NewMech_def Let_def SaslClient_Step_def
      SaslClient_IsEstablished_def split: option.splits prod.splits)

lemma first_passing_index:
  "\<exists>nm\<in>set l. P nm \<Longrightarrow> \<exists>i<length l. P (l ! i) \<and> (\<forall>j<i. \<not> P (l ! j))"
proof -
  assume "\<exists>nm\<in>set l. P nm"
  then have ex: "\<exists>i. i < length l \<and> P (l ! i)" by (auto simp: in_set_conv_nth)
  define i where "i = (LEAST i. i < length l \<and> P (l ! i))"
  have 1: "i < length l \<and> P (l ! i)" unfolding i_def using ex by (rule LeastI_ex)
  have 2: "\<forall>j<i. \<not> P (l ! j)"
  proof (intro allI impI notI)
    fix j assume j: "j < i" and "P (l ! j)"
    with 1 have "j < length l \<and> P (l ! j)" by simp
    then have "i \<le> j" unfolding i_def by (rule Least_le)
    with j show False by simp
  qed
  from 1 2 show ?thesis by blast
qed

subsection \<open>The step that negotiates the security layer\<close>

lemma lenBytes_4: "lenBytes data = 4 \<longleftrightarrow> (\<exists>b0 b1 b2 b3. data = Some [b0, b1, b2, b3])"
proof
  assume "lenBytes data = 4"
  then obtain xs where d: "data = Some xs" and l: "length xs = 4"
    by (cases data) (auto simp: lenBytes_def)
  from l obtain b0 b1 b2 b3 where "xs = [b0, b1, b2, b3]"
    by (auto simp: length_Suc_conv numeral_eq_Suc)
  with d show "\<exists>b0 b1 b2 b3. data = Some [b0, b1, b2, b3]" by blast
next
  assume "\<exists>b0 b1 b2 b3. data = Some [b0, b1, b2, b3]"
  then show "lenBytes data = 4" by (auto simp: lenBytes_def)
qed

lemma stepSSFCap_bad_length:
  assumes "gss_Unwrap g (client m) tok = ((data, conf, None), cl)" and "lenBytes data \<noteq> 4"
  shows "stepSSFCap g m tok = ((None, Some (ErrBadToken (lenBytes data))), m\<lparr>client := cl\<rparr>)"
  using assms by (simp add: stepSSFCap_def Let_def)

lemma stepSSFCap_unwrap_error:
  assumes "gss_Unwrap g (client m) tok = ((data, conf, Some e), cl)"
  shows "stepSSFCap g m tok = ((None, Some (ErrGSS e)), m\<lparr>client := cl\<rparr>)"
  using assms by (simp add: stepSSFCap_def)

lemma stepSSFCap_unwrapped:
  assumes "gss_Unwrap g (client m) tok = ((Some bs, conf, None), cl)" and "length bs = 4"
  shows "stepSSFCap g m tok =
     (if MinSSF (config m) > gss_SSF g cl + ExternalSSF (config m)
      then ((None, Some (ErrTooWeak (gss_SSF g cl) (ExternalSSF (config m)) (MinSSF (config m)))),
            m\<lparr>client := cl\<rparr>)
      else case stepSSFCap_choice (m\<lparr>client := cl\<rparr>) (bs ! 0) (gss_SSF g cl)
                  (stepSSFCap_allowedSSF (config m)) (stepSSFCap_needSSF (config m)) of
             None \<Rightarrow> ((None, Some ErrNoSecurityLayer), m\<lparr>client := cl\<rparr>)
           | Some (qopChoice, m2) \<Rightarrow> stepSSFCap_finish g m2 qopChoice bs)"
  using assms
  by (simp add: stepSSFCap_def Let_def lenBytes_def stepSSFCap_allowedSSF_def stepSSFCap_needSSF_def)

lemma allowed_nat: "unat (stepSSFCap_allowedSSF cfg) = spec_allowedSSF cfg"
  by (auto simp: stepSSFCap_allowedSSF_def spec_allowedSSF_def unat_sub word_le_nat_alt)

lemma need_cfg_nat: "unat (stepSSFCap_needSSF cfg) = spec_needSSF cfg"
  by (auto simp: stepSSFCap_needSSF_def spec_needSSF_def unat_sub word_le_nat_alt)

lemma layer_bit:
  "(w::qop) AND layerNone > 0 \<longleftrightarrow> bit w 0"
  "(w::qop) AND layerIntegrity > 0 \<longleftrightarrow> bit w 1"
  "(w::qop) AND layerConfidentiality > 0 \<longleftrightarrow> bit w 2"
proof -
  have z: "\<And>x::qop. (0 < x) = (x \<noteq> 0)" by (simp add: word_gt_0)
  have "w AND 2 ^ 0 \<noteq> 0 \<longleftrightarrow> bit w 0" "w AND 2 ^ 1 \<noteq> 0 \<longleftrightarrow> bit w 1"
       "w AND 2 ^ 2 \<noteq> 0 \<longleftrightarrow> bit w 2"
    by (simp_all only: and_exp_eq_0_iff_not_bit not_not)
  then show "(w::qop) AND layerNone > 0 \<longleftrightarrow> bit w 0"
    "(w::qop) AND layerIntegrity > 0 \<longleftrightarrow> bit w 1"
    "(w::qop) AND layerConfidentiality > 0 \<longleftrightarrow> bit w 2"
    by (simp_all add: layer_defs z)
qed

lemma stepSSFCap_choice_spec:
  "stepSSFCap_choice m1 off ch (stepSSFCap_allowedSSF (config m1)) (stepSSFCap_needSSF (config m1)) =
     (if spec_conf_ok (qop m1) off (config m1) (unat ch)
      then Some (case ExtraProps (config m1) ''ad_compat'' of
                   Some val \<Rightarrow> (if isTrue val then layerConfidentiality OR layerIntegrity
                                else layerConfidentiality)
                 | None \<Rightarrow> layerConfidentiality,
                 m1\<lparr>mech_ssf := ch\<rparr>)
      else if spec_integ_ok (qop m1) off (config m1) then Some (layerIntegrity, m1\<lparr>mech_ssf := 1\<rparr>)
      else if spec_none_ok (qop m1) off (config m1) then Some (layerNone, m1\<lparr>mech_ssf := 0\<rparr>)
      else None)"
proof -
  have c: "spec_conf_ok (qop m1) off (config m1) (unat ch) \<longleftrightarrow>
           qop m1 AND layerConfidentiality > 0 \<and> off AND layerConfidentiality > 0 \<and>
           stepSSFCap_allowedSSF (config m1) \<ge> ch \<and> stepSSFCap_needSSF (config m1) \<le> ch"
    by (simp add: spec_conf_ok_def layer_bit word_le_nat_alt allowed_nat need_cfg_nat)
  have i: "spec_integ_ok (qop m1) off (config m1) \<longleftrightarrow>
           qop m1 AND layerIntegrity > 0 \<and> off AND layerIntegrity > 0 \<and>
           stepSSFCap_allowedSSF (config m1) \<ge> 1 \<and> stepSSFCap_needSSF (config m1) \<le> 2"
    by (simp add: spec_integ_ok_def layer_bit word_le_nat_alt allowed_nat need_cfg_nat)
  have n: "spec_none_ok (qop m1) off (config m1) \<longleftrightarrow>
           qop m1 AND layerNone > 0 \<and> off AND layerNone > 0 \<and> stepSSFCap_needSSF (config m1) \<le> 0"
    by (simp add: spec_none_ok_def layer_bit word_le_nat_alt need_cfg_nat)
  show ?thesis unfolding c i n stepSSFCap_choice_def by simp
qed

lemma stepSSFCap_finish_ssf [simp]:
  "mech_ssf (snd (stepSSFCap_finish g m2 q bs)) = mech_ssf m2"
  by (simp add: stepSSFCap_finish_def Let_def split: prod.splits option.splits)

subsection \<open>The bytes of the negotiation token\<close>

lemma byte_lt: "unat (b :: 8 word) < 256"
  using unsigned_less [of b, where 'a = nat] by simp

lemma ucast_byte_nat: "unat (ucast (b :: 8 word) :: 32 word) = unat b"
  using byte_lt [of b] by (simp add: unsigned_ucast_eq take_bit_nat_eq_self)

lemma or_disj: "push_bit 16 (ucast (b1 :: 8 word) :: 32 word) OR push_bit 8 (ucast (b2 :: 8 word))
   = push_bit 16 (ucast b1) + push_bit 8 (ucast b2)"
  by (rule disjunctive_add_eq_or [symmetric], rule bit_eqI)
     (auto simp: bit_simps dest: bit_imp_le_length)

lemma dec: "unat ((push_bit 16 (ucast (b1 :: 8 word) :: 32 word) OR push_bit 8 (ucast (b2 :: 8 word))) + ucast (b3 :: 8 word))
   = 65536 * unat b1 + 256 * unat b2 + unat b3"
proof -
  have 1: "unat b1 < 256" "unat b2 < 256" "unat b3 < 256" by (rule byte_lt)+
  have "unat (push_bit 16 (ucast b1 :: 32 word) + push_bit 8 (ucast b2 :: 32 word) + ucast b3)
      = (65536 * unat b1 + 256 * unat b2 + unat b3) mod 2 ^ 32"
    by (simp add: push_bit_eq_mult unat_word_ariths ucast_byte_nat mod_simps mult.commute)
  also have "\<dots> = 65536 * unat b1 + 256 * unat b2 + unat b3"
    using 1 by simp
  finally show ?thesis by (simp add: or_disj)
qed

lemma enc_byte: "unat (ucast (drop_bit k (mx :: 64 word) AND 0xff) :: 8 word) = unat mx div 2 ^ k mod 256"
proof -
  have "drop_bit k mx AND 0xff = take_bit 8 (drop_bit k mx)"
    using take_bit_eq_mask [of 8 "drop_bit k mx"] by (simp add: mask_eq_exp_minus_1)
  then have "unat (ucast (drop_bit k mx AND 0xff) :: 8 word) = unat (take_bit 8 (drop_bit k mx))"
    by (simp add: unsigned_ucast_eq unsigned_take_bit_eq)
  also have "\<dots> = take_bit 8 (drop_bit k (unat mx))"
    by (simp only: unsigned_take_bit_eq unat_drop_bit_eq)
  also have "\<dots> = unat mx div 2 ^ k mod 256"
    by (simp add: take_bit_eq_mod drop_bit_eq_div)
  finally show ?thesis .
qed

lemma byte_eq_of_nat: "unat (b :: 8 word) = n mod 256 \<Longrightarrow> b = of_nat n"
proof -
  assume "unat b = n mod 256"
  then have "unat b = unat (of_nat n :: 8 word)" by (simp add: unat_of_nat)
  then show ?thesis by (simp only: word_unat_eq_iff)
qed

lemma stepSSFCap_finish_err:
  "snd (fst (stepSSFCap_finish g m2 q bs)) = None \<or>
   (\<exists>e. snd (fst (stepSSFCap_finish g m2 q bs)) = Some (ErrGSS e))"
  by (simp add: stepSSFCap_finish_def Let_def split: prod.splits option.splits)

lemma stepSSFCap_strong_err:
  assumes unwrap: "gss_Unwrap g (client m) tok = ((Some bs, conf, None), cl)"
      and len: "length bs = 4"
      and strong: "\<not> MinSSF (config m) > gss_SSF g cl + ExternalSSF (config m)"
  shows "snd (fst (stepSSFCap g m tok)) = None \<or>
         snd (fst (stepSSFCap g m tok)) = Some ErrNoSecurityLayer \<or>
         (\<exists>e. snd (fst (stepSSFCap g m tok)) = Some (ErrGSS e))"
proof (cases "stepSSFCap_choice (m\<lparr>client := cl\<rparr>) (bs ! 0) (gss_SSF g cl)
                  (stepSSFCap_allowedSSF (config m)) (stepSSFCap_needSSF (config m))")
  case None
  with strong show ?thesis by (simp add: stepSSFCap_unwrapped [OF unwrap len])
next
  case (Some a)
  obtain q m2 where a: "a = (q, m2)" by (cases a)
  from Some strong have "stepSSFCap g m tok = stepSSFCap_finish g m2 q bs"
    by (simp add: stepSSFCap_unwrapped [OF unwrap len] a)
  with stepSSFCap_finish_err [of g m2 q bs] show ?thesis by auto
qed

lemma serverMaxInput_nat:
  "unat (serverMaxInput [b0, b1, b2, b3]) = 65536 * unat b1 + 256 * unat b2 + unat b3"
  by (simp add: serverMaxInput_def dec)

lemma minUint_nat: "unat (minUint a b) = min (unat a) (unat b)"
  by (simp add: minUint_def word_less_nat_alt min_def)

lemma stepSSFCap_dataOut_spec: "stepSSFCap_dataOut cfg q = spec_reply q (unat (MaxBufSize cfg))"
proof -
  let ?mx = "minUint (MaxBufSize cfg) 0xFFFFFF"
  let ?n = "min (unat (MaxBufSize cfg)) 16777215"
  have n: "unat ?mx = ?n" by (simp add: minUint_nat)
  have 1: "ucast (drop_bit 16 ?mx AND 0xff) = (of_nat (?n div 65536) :: byte)"
    by (rule byte_eq_of_nat) (simp only: enc_byte n, simp)
  have 2: "ucast (drop_bit 8 ?mx AND 0xff) = (of_nat (?n div 256 mod 256) :: byte)"
    by (rule byte_eq_of_nat) (simp only: enc_byte n, simp)
  have 3: "ucast (drop_bit 0 ?mx AND 0xff) = (of_nat (?n mod 256) :: byte)"
    by (rule byte_eq_of_nat) (simp only: enc_byte n, simp)
  have q: "q > 1 \<longleftrightarrow> unat q > 1" by (simp add: word_less_nat_alt)
  show ?thesis
    unfolding stepSSFCap_dataOut_def spec_reply_def Let_def q 1 2 3 by simp
qed

lemma stepSSFCap_finish_success:
  assumes "snd (fst (stepSSFCap_finish g m2 q bs)) = None"
  shows "gss_Wrap g (client m2) (Some (stepSSFCap_dataOut (config m2) q)) False =
           ((fst (fst (stepSSFCap_finish g m2 q bs)), None),
            client (snd (stepSSFCap_finish g m2 q bs)))"
    and "state (snd (stepSSFCap_finish g m2 q bs)) = stateAuthenticated"
    and "maxOutputBufferSz (snd (stepSSFCap_finish g m2 q bs)) =
           (if mech_ssf m2 > 0
            then gss_WrapSizeLimit g (client m2) (serverMaxInput bs) (mech_ssf m2 > 1)
            else serverMaxInput bs)"
  using assms
  by (auto simp: stepSSFCap_finish_def Let_def split: prod.splits option.splits if_splits)

lemma stepSSFCap_choice_Some:
  assumes "stepSSFCap_choice m1 off ch a n = Some (q, m2)"
  shows "client m2 = client m1" and "config m2 = config m1"
    and "q = layerNone \<and> bit off 0 \<or> q = layerIntegrity \<and> bit off 1 \<or>
         (q = layerConfidentiality \<or> q = layerConfidentiality OR layerIntegrity) \<and> bit off 2"
  using assms
  by (auto simp: stepSSFCap_choice_def layer_bit split: if_splits option.splits)

lemma stepSSFCap_success:
  assumes unwrap: "gss_Unwrap g (client m) tok = ((Some bs, conf, None), cl)"
      and len: "length bs = 4"
      and ok: "snd (fst (stepSSFCap g m tok)) = None"
  obtains q m2 where
    "stepSSFCap_choice (m\<lparr>client := cl\<rparr>) (bs ! 0) (gss_SSF g cl)
       (stepSSFCap_allowedSSF (config m)) (stepSSFCap_needSSF (config m)) = Some (q, m2)"
    "stepSSFCap g m tok = stepSSFCap_finish g m2 q bs"
proof (cases "MinSSF (config m) > gss_SSF g cl + ExternalSSF (config m)")
  case True
  with ok show ?thesis by (simp add: stepSSFCap_unwrapped [OF unwrap len])
next
  case strong: False
  show ?thesis
  proof (cases "stepSSFCap_choice (m\<lparr>client := cl\<rparr>) (bs ! 0) (gss_SSF g cl)
                  (stepSSFCap_allowedSSF (config m)) (stepSSFCap_needSSF (config m))")
    case None
    with ok strong show ?thesis by (simp add: stepSSFCap_unwrapped [OF unwrap len])
  next
    case (Some a)
    obtain q m2 where a: "a = (q, m2)" by (cases a)
    from Some strong have "stepSSFCap g m tok = stepSSFCap_finish g m2 q bs"
      by (simp add: stepSSFCap_unwrapped [OF unwrap len] a)
    with Some a that show ?thesis by simp
  qed
qed

subsection \<open>The states of the handshake\<close>

lemma stepAuthenticating_first_keeps:
  "(stepAuthenticating_first g m = Inl (r, m') \<longrightarrow> state m' = state m \<and> config m' = config m) \<and>
   (stepAuthenticating_first g m = Inr (m', t) \<longrightarrow> state m' = state m \<and> config m' = config m)"
proof (cases "length (ServerFQDN (config m)) = 0")
  case True
  then show ?thesis by (auto simp: stepAuthenticating_first_def)
next
  case False
  define princName where "princName = Service (config m) @ ''/'' @ ServerFQDN (config m)"
  define flags where "flags =
              (if cfgMaxSSF (config m) > ExternalSSF (config m) then
                 (if cfgMaxSSF (config m) - ExternalSSF (config m) > 1
                  then (ContextFlagMutual g OR ContextFlagSequence g) OR ContextFlagInteg g OR ContextFlagConf g
                  else (ContextFlagMutual g OR ContextFlagSequence g) OR ContextFlagInteg g)
               else ContextFlagMutual g OR ContextFlagSequence g)"
  define gsscb where "gsscb = (case cfgChannelBinding (config m) of
                       None \<Rightarrow> None
                     | Some cb \<Rightarrow> Some \<lparr>gssData = Data cb\<rparr>)"
  obtain e cl where i: "gss_Initiate g (client m) princName flags gsscb = (e, cl)"
    by (cases "gss_Initiate g (client m) princName flags gsscb")
  have u: "stepAuthenticating_first g m =
      (case gss_Initiate g (client m) princName flags gsscb of
             (Some e, cl) \<Rightarrow> Inl ((None, Some (ErrGSS e)), m\<lparr>client := cl\<rparr>)
           | (None, cl) \<Rightarrow>
               (let m1 = m\<lparr>client := cl\<rparr>;
                    m2 = (if gss_ContextFlags g (client m1) AND ContextFlagInteg g = 0
                            then m1\<lparr>qop := layerNone\<rparr>
                          else if gss_ContextFlags g (client m1) AND ContextFlagConf g = 0
                            then m1\<lparr>qop := layerNone OR layerIntegrity\<rparr>
                          else m1\<lparr>qop := layerNone OR layerIntegrity OR layerConfidentiality\<rparr>)
                in Inr (m2, Some [])))"
    unfolding stepAuthenticating_first_def princName_def flags_def gsscb_def Let_def
    using False by simp
  show ?thesis
  proof (cases e)
    case None
    then show ?thesis unfolding u i by (auto simp: Let_def)
  next
    case (Some x)
    then show ?thesis unfolding u i by auto
  qed
qed

lemma stepAuthenticating_state:
  "config (snd (stepAuthenticating g m tok)) = config m \<and>
   (state (snd (stepAuthenticating g m tok)) = state m \<or>
    \<not> HTTPMode (config m) \<and> state (snd (stepAuthenticating g m tok)) = stateSSFCap \<or>
    HTTPMode (config m) \<and> state (snd (stepAuthenticating g m tok)) = stateAuthenticated)"
proof (cases "if tok = None then stepAuthenticating_first g m else Inr (m, tok)")
  case (Inl a)
  obtain r m' where a: "a = (r, m')" by (cases a)
  from Inl a have "stepAuthenticating_first g m = Inl (r, m')" by (simp split: if_splits)
  with stepAuthenticating_first_keeps [of g m r m']
  have "state m' = state m \<and> config m' = config m" by simp
  with Inl a show ?thesis by (simp add: stepAuthenticating_def)
next
  case (Inr b)
  obtain m1 t where b: "b = (m1, t)" by (cases b)
  have k: "state m1 = state m \<and> config m1 = config m"
  proof (cases "tok = None")
    case True
    with Inr b have "stepAuthenticating_first g m = Inr (m1, t)" by simp
    with stepAuthenticating_first_keeps [of g m _ m1 t] show ?thesis by simp
  next
    case False
    with Inr b show ?thesis by simp
  qed
  show ?thesis
    using k unfolding stepAuthenticating_def Inr b
    by (simp add: Let_def split: prod.splits)
qed

lemma stepSSFCap_finish_state:
  "config (snd (stepSSFCap_finish g m2 q bs)) = config m2 \<and>
   (state (snd (stepSSFCap_finish g m2 q bs)) = state m2 \<or>
    state (snd (stepSSFCap_finish g m2 q bs)) = stateAuthenticated)"
  by (simp add: stepSSFCap_finish_def Let_def split: prod.splits option.splits)

lemma stepSSFCap_choice_keeps:
  "stepSSFCap_choice m1 off ch a n = Some (q, m2) \<Longrightarrow> state m2 = state m1 \<and> config m2 = config m1"
  by (auto simp: stepSSFCap_choice_def split: if_splits)

lemma stepSSFCap_state:
  "config (snd (stepSSFCap g m tok)) = config m \<and>
   (state (snd (stepSSFCap g m tok)) = state m \<or>
    state (snd (stepSSFCap g m tok)) = stateAuthenticated)"
proof -
  obtain data conf err cl where u: "gss_Unwrap g (client m) tok = ((data, conf, err), cl)"
    by (metis prod.exhaust)
  show ?thesis
  proof (cases err)
    case (Some e)
    with u show ?thesis by (simp add: stepSSFCap_unwrap_error)
  next
    case None
    note u' = u [unfolded None]
    show ?thesis
    proof (cases "lenBytes data = 4")
      case False
      with u' show ?thesis by (simp add: stepSSFCap_bad_length)
    next
      case True
      then obtain bs where d: "data = Some bs" and l: "length bs = 4"
        by (auto simp: lenBytes_4)
      note r = stepSSFCap_unwrapped [OF u' [unfolded d] l]
      show ?thesis
      proof (cases "stepSSFCap_choice (m\<lparr>client := cl\<rparr>) (bs ! 0) (gss_SSF g cl)
                  (stepSSFCap_allowedSSF (config m)) (stepSSFCap_needSSF (config m))")
        case None
        then show ?thesis by (simp add: r)
      next
        case (Some a)
        obtain q m2 where a: "a = (q, m2)" by (cases a)
        from stepSSFCap_choice_keeps [OF Some [unfolded a]]
        have k: "state m2 = state m" "config m2 = config m" by simp_all
        show ?thesis
          using stepSSFCap_finish_state [of g m2 q bs] k
          by (simp add: r Some a)
      qed
    qed
  qed
qed

lemma Step_transition:
  "config (snd (GSSAPIMech_Step g m tok)) = config m \<and>
   (state (snd (GSSAPIMech_Step g m tok)) = state m \<or>
    state m = stateAuthenticating \<and> \<not> HTTPMode (config m) \<and>
      state (snd (GSSAPIMech_Step g m tok)) = stateSSFCap \<or>
    state m = stateAuthenticating \<and> HTTPMode (config m) \<and>
      state (snd (GSSAPIMech_Step g m tok)) = stateAuthenticated \<or>
    state m = stateSSFCap \<and> state (snd (GSSAPIMech_Step g m tok)) = stateAuthenticated)"
proof (cases "state m = stateAuthenticating")
  case True
  then have "GSSAPIMech_Step g m tok = stepAuthenticating g m tok"
    by (simp add: GSSAPIMech_Step_def)
  moreover note stepAuthenticating_state [of g m tok, THEN conjunct1]
  moreover note stepAuthenticating_state [of g m tok, THEN conjunct2]
  ultimately show ?thesis using True by (elim disjE conjE) simp_all
next
  case nA: False
  show ?thesis
  proof (cases "state m = stateSSFCap")
    case True
    with nA have "GSSAPIMech_Step g m tok = stepSSFCap g m tok"
      by (simp add: GSSAPIMech_Step_def)
    moreover note stepSSFCap_state [of g m tok, THEN conjunct1]
    moreover note stepSSFCap_state [of g m tok, THEN conjunct2]
    ultimately show ?thesis using True by (elim disjE conjE) simp_all
  next
    case False
    with nA have "snd (GSSAPIMech_Step g m tok) = m"
      by (simp add: GSSAPIMech_Step_def)
    then show ?thesis by simp
  qed
qed

lemma Step_rank: "state_rank (state m) \<le> state_rank (state (snd (GSSAPIMech_Step g m tok)))"
proof -
  have r: "state_rank stateAuthenticating = 0" "state_rank stateSSFCap = 1"
    "state_rank stateAuthenticated = 2"
    by (simp_all add: state_rank_def state_defs)
  from Step_transition [of g m tok]
  consider "state (snd (GSSAPIMech_Step g m tok)) = state m"
    | "state m = stateAuthenticating" "state (snd (GSSAPIMech_Step g m tok)) = stateSSFCap"
    | "state m = stateAuthenticating" "state (snd (GSSAPIMech_Step g m tok)) = stateAuthenticated"
    | "state m = stateSSFCap" "state (snd (GSSAPIMech_Step g m tok)) = stateAuthenticated"
    by blast
  then show ?thesis by cases (simp_all add: r)
qed

lemma run_steps_rank: "state_rank (state m) \<le> state_rank (state (run_steps g m toks))"
proof (induction toks arbitrary: m)
  case Nil
  then show ?case by simp
next
  case (Cons tok toks)
  have "state_rank (state m) \<le> state_rank (state (snd (GSSAPIMech_Step g m tok)))"
    by (rule Step_rank)
  also have "\<dots> \<le> state_rank (state (run_steps g (snd (GSSAPIMech_Step g m tok)) toks))"
    by (rule Cons.IH)
  finally show ?case by simp
qed

lemma Step_established:
  "state m = stateAuthenticated \<Longrightarrow>
   GSSAPIMech_Step g m tok = ((None, Some ErrAlreadyEstablished), m)"
  by (simp add: GSSAPIMech_Step_def state_defs)

lemma run_steps_established: "state m = stateAuthenticated \<Longrightarrow> run_steps g m toks = m"
  by (induction toks) (simp_all add: Step_established)

lemma noLayerMech_simps:
  "state noLayerMech = stateAuthenticated" "mech_ssf noLayerMech = 0"
  by (simp_all add: noLayerMech_def stepSSFCap_def stepSSFCap_choice_def stepSSFCap_finish_def
      stepSSFCap_allowedSSF_def stepSSFCap_needSSF_def Let_def lenBytes_def layer_defs
      stubGSS_def offerMech_def gssapi_NewMech_def stubConfig_def)

lemma stepSSFCap_finish_size:
  "maxOutputBufferSz (snd (stepSSFCap_finish g m2 q bs)) =
     (if mech_ssf m2 > 0
      then gss_WrapSizeLimit g (client m2) (serverMaxInput bs) (mech_ssf m2 > 1)
      else serverMaxInput bs)"
  by (simp add: stepSSFCap_finish_def Let_def split: prod.splits option.splits)

lemma stepSSFCap_finish_reply:
  "fst (stepSSFCap_finish g m2 q bs) =
     (case gss_Wrap g (client m2) (Some (q # tl (stepSSFCap_dataOut (config m2) q))) False of
        ((outToken, Some e), cl2) \<Rightarrow> (None, Some (ErrGSS e))
      | ((outToken, None), cl2) \<Rightarrow> (outToken, None))"
proof -
  have "stepSSFCap_dataOut (config m2) q = q # tl (stepSSFCap_dataOut (config m2) q)"
    by (simp add: stepSSFCap_dataOut_def Let_def)
  then show ?thesis
    by (simp add: stepSSFCap_finish_def Let_def split: prod.splits option.splits)
qed

section \<open>The claims\<close>

text \<open>
  Claim C1. For a client whose candidate list holds registered names only (the registry's
  names all match the name pattern, as \<open>Register\<close> enforces) and whose channel-binding
  disposition is \<open>d\<close>: when no candidate passes the five filters, \<open>Start\<close> fails with
  \<open>ErrNoMech\<close>; when the candidate at index \<open>i\<close> passes and none before it does, \<open>Start\<close>
  instantiates exactly that candidate, whatever follows it in the list. Selection is
  first-fit in list order.
\<close>

theorem Start_selects_first_passing:
  assumes names: "\<forall>nm\<in>dom mechs. saslMechRegexp nm"
      and trimmed: "\<forall>nm\<in>set (mechList c). IsRegistered mechs nm"
      and disp: "channelBindingDisposition_of mechs c = (d, None)"
  shows "((\<forall>nm\<in>set (mechList c). \<not> spec_passes mechs c d nm) \<longrightarrow>
            SaslClient_Start ops mechs c = ((None, Some ErrNoMech), c\<lparr>mech := None\<rparr>)) \<and>
         (\<forall>i<length (mechList c).
            spec_passes mechs c d (mechList c ! i) \<and>
            (\<forall>j<i. \<not> spec_passes mechs c d (mechList c ! j)) \<longrightarrow>
            SaslClient_Start ops mechs c =
              Start_instantiate ops mechs (c\<lparr>mech := None\<rparr>) (mechList c ! i))"
proof (intro conjI impI allI)
  let ?c = "c\<lparr>mech := None\<rparr>"
  assume "\<forall>nm\<in>set (mechList c). \<not> spec_passes mechs c d nm"
  then have "\<forall>nm\<in>set (mechList ?c). \<not> spec_passes mechs ?c d nm" by simp
  then have "Start_chosenMech mechs ?c (Start_need ?c) d (mechList ?c) = []"
    by (rule Start_chosenMech_none)
  then show "SaslClient_Start ops mechs c = ((None, Some ErrNoMech), ?c)"
    by (simp add: SaslClient_Start_def Let_def disp)
next
  let ?c = "c\<lparr>mech := None\<rparr>"
  fix i
  assume i: "i < length (mechList c)"
     and p: "spec_passes mechs c d (mechList c ! i) \<and>
             (\<forall>j<i. \<not> spec_passes mechs c d (mechList c ! j))"
  have "Start_chosenMech mechs ?c (Start_need ?c) d (mechList ?c) = mechList ?c ! i"
    using i p by (intro Start_chosenMech_first) auto
  then have ch: "Start_chosenMech mechs ?c (Start_need ?c) d (mechList c) = mechList c ! i"
    by simp
  from i trimmed have "IsRegistered mechs (mechList c ! i)" by simp
  then have "mechList c ! i \<in> dom mechs" by (auto simp: IsRegistered_def)
  with names have "mechList c ! i \<noteq> []" by (auto dest: saslMechRegexp_nonempty)
  with ch show "SaslClient_Start ops mechs c = Start_instantiate ops mechs ?c (mechList c ! i)"
    by (simp add: SaslClient_Start_def Let_def disp)
qed

text \<open>
  The examples of the test suite, through the theorem: with the order MECH1, MECH2, MECH3
  the instance is MECH1's; with MECH2, MECH3, MECH1 it is MECH3's (MECH2 fails the
  property match).
\<close>

theorem Start_selects_first_passing_witness:
  "mech (snd (SaslClient_Start mockMech_Mech testRegistry
       (testClient [''MECH1'', ''MECH2'', ''MECH3''] 0 0))) = Some mockMech1 \<and>
   mech (snd (SaslClient_Start mockMech_Mech testRegistry
       (testClient [''MECH2'', ''MECH3'', ''MECH1''] 0 0))) = Some mockMech3"
proof -
  let ?A = "testClient [''MECH1'', ''MECH2'', ''MECH3''] 0 0"
  let ?B = "testClient [''MECH2'', ''MECH3'', ''MECH1''] 0 0"
  have lA: "mechList ?A = [''MECH1'', ''MECH2'', ''MECH3'']"
   and lB: "mechList ?B = [''MECH2'', ''MECH3'', ''MECH1'']"
    by (simp_all add: testClient_simps testRegistry_IsRegistered)
  have dA: "channelBindingDisposition_of testRegistry ?A = (channelBindingDispNone, None)"
   and dB: "channelBindingDisposition_of testRegistry ?B = (channelBindingDispNone, None)"
    by (simp_all add: channelBindingDisposition_of_def testClient_simps)
  have tA: "\<forall>nm\<in>set (mechList ?A). IsRegistered testRegistry nm"
   and tB: "\<forall>nm\<in>set (mechList ?B). IsRegistered testRegistry nm"
    unfolding lA lB by (simp_all add: testRegistry_IsRegistered)
  have "SaslClient_Start mockMech_Mech testRegistry ?A =
        Start_instantiate mockMech_Mech testRegistry (?A\<lparr>mech := None\<rparr>) (mechList ?A ! 0)"
    using Start_selects_first_passing [OF testRegistry_names tA dA, of mockMech_Mech,
        THEN conjunct2, rule_format, of 0]
    by (simp add: lA test_passes)
  then have A: "mech (snd (SaslClient_Start mockMech_Mech testRegistry ?A)) = Some mockMech1"
    by (simp add: lA Start_instantiate_def NewMech_def testRegistry_def mockMech_Mech_def
        SaslClient_Step_def SaslClient_IsEstablished_def MechProps_zero_def Let_def)
  have "SaslClient_Start mockMech_Mech testRegistry ?B =
        Start_instantiate mockMech_Mech testRegistry (?B\<lparr>mech := None\<rparr>) (mechList ?B ! 1)"
    using Start_selects_first_passing [OF testRegistry_names tB dB, of mockMech_Mech,
        THEN conjunct2, rule_format, of 1]
    by (simp add: lB test_passes)
  then have B: "mech (snd (SaslClient_Start mockMech_Mech testRegistry ?B)) = Some mockMech3"
    by (simp add: lB Start_instantiate_def NewMech_def testRegistry_def mockMech_Mech_def
        SaslClient_Step_def SaslClient_IsEstablished_def MechProps_zero_def Let_def)
  from A B show ?thesis by simp
qed

text \<open>
  Claim C4. Under the hypotheses of C1, \<open>Start\<close> selects a mechanism exactly when some
  candidate meets the filters, where the required property set is the configured one with
  the no-plaintext property (bit 0) removed when the external strength exceeds both the
  configured minimum and 1, and exactly the configured one otherwise.
\<close>

theorem no_plaintext_waiver:
  assumes names: "\<forall>nm\<in>dom mechs. saslMechRegexp nm"
      and trimmed: "\<forall>nm\<in>set (mechList c). IsRegistered mechs nm"
      and disp: "channelBindingDisposition_of mechs c = (d, None)"
  shows "mech (snd (SaslClient_Start ops mechs c)) \<noteq> None \<longleftrightarrow>
         (\<exists>nm\<in>set (mechList c).
            unat (MaxSSF (Properties mechs nm)) \<ge> unat (minSSF c) - unat (ssf (extProps c)) \<and>
            (if unat (ssf (extProps c)) > unat (minSSF c) \<and> unat (ssf (extProps c)) > 1
             then propSet (secProps c) - {0} else propSet (secProps c))
              \<subseteq> propSet (SecurityProperties (Properties mechs nm)) \<and>
            (d = channelBindingDispMust \<longrightarrow>
               Fearures (Properties mechs nm) AND FeatChannelBindings \<noteq> 0) \<and>
            (serverFQDN c = [] \<longrightarrow> Fearures (Properties mechs nm) AND FeatNeedServerFQDN = 0) \<and>
            (needHTTP c \<longrightarrow> Fearures (Properties mechs nm) AND FeatSupportsHTTP \<noteq> 0))"
proof -
  let ?c = "c\<lparr>mech := None\<rparr>"
  have rhs: "?thesis \<longleftrightarrow> (mech (snd (SaslClient_Start ops mechs c)) \<noteq> None \<longleftrightarrow>
               (\<exists>nm\<in>set (mechList c). spec_passes mechs c d nm))"
    by (simp add: spec_passes_def spec_want_def spec_waived_def spec_neededSSF_def Let_def)
  have "mech (snd (SaslClient_Start ops mechs c)) \<noteq> None \<longleftrightarrow>
        (\<exists>nm\<in>set (mechList c). spec_passes mechs c d nm)"
  proof (cases "\<exists>nm\<in>set (mechList c). spec_passes mechs c d nm")
    case False
    then have "\<forall>nm\<in>set (mechList ?c). \<not> spec_passes mechs ?c d nm" by simp
    then have "Start_chosenMech mechs ?c (Start_need ?c) d (mechList ?c) = []"
      by (rule Start_chosenMech_none)
    then have "SaslClient_Start ops mechs c = ((None, Some ErrNoMech), ?c)"
      by (simp add: SaslClient_Start_def Let_def disp)
    with False show ?thesis by simp
  next
    case True
    then obtain i where i: "i < length (mechList c)"
        and p: "spec_passes mechs c d (mechList c ! i)"
        and q: "\<forall>j<i. \<not> spec_passes mechs c d (mechList c ! j)"
      using first_passing_index [of "mechList c" "spec_passes mechs c d"] by blast
    have "Start_chosenMech mechs ?c (Start_need ?c) d (mechList ?c) = mechList ?c ! i"
      using i p q by (intro Start_chosenMech_first) auto
    then have ch: "Start_chosenMech mechs ?c (Start_need ?c) d (mechList c) = mechList c ! i"
      by simp
    from i trimmed have reg: "IsRegistered mechs (mechList c ! i)" by simp
    then have "mechList c ! i \<in> dom mechs" by (auto simp: IsRegistered_def)
    with names have "mechList c ! i \<noteq> []" by (auto dest: saslMechRegexp_nonempty)
    with ch have "SaslClient_Start ops mechs c = Start_instantiate ops mechs ?c (mechList c ! i)"
      by (simp add: SaslClient_Start_def Let_def disp)
    with reg True show ?thesis by (simp add: Start_instantiate_mech)
  qed
  with rhs show ?thesis by simp
qed

text \<open>
  With a minimum of 20 and an external strength of 25 the mechanism MECH2, which lacks the
  no-plaintext property, is selected; with an external strength of 20 it is not.
\<close>

theorem no_plaintext_waiver_witness:
  "mech (snd (SaslClient_Start mockMech_Mech testRegistry (testClient [''MECH2''] 20 25))) \<noteq> None \<and>
   mech (snd (SaslClient_Start mockMech_Mech testRegistry (testClient [''MECH2''] 20 20))) = None"
proof -
  let ?A = "testClient [''MECH2''] 20 25"
  let ?B = "testClient [''MECH2''] 20 20"
  have l: "mechList ?A = [''MECH2'']" "mechList ?B = [''MECH2'']"
    by (simp_all add: testClient_simps testRegistry_IsRegistered)
  have d: "channelBindingDisposition_of testRegistry ?A = (channelBindingDispNone, None)"
          "channelBindingDisposition_of testRegistry ?B = (channelBindingDispNone, None)"
    by (simp_all add: channelBindingDisposition_of_def testClient_simps)
  have t: "\<forall>nm\<in>set (mechList ?A). IsRegistered testRegistry nm"
          "\<forall>nm\<in>set (mechList ?B). IsRegistered testRegistry nm"
    unfolding l by (simp_all add: testRegistry_IsRegistered)
  have A: "mech (snd (SaslClient_Start mockMech_Mech testRegistry ?A)) \<noteq> None"
    unfolding no_plaintext_waiver [OF testRegistry_names t(1) d(1)] l
    by (simp add: testClient_simps testRegistry_Properties propSet_waive propSet_subset_iff
        Sec_defs Feat_defs)
  have B: "mech (snd (SaslClient_Start mockMech_Mech testRegistry ?B)) = None"
    using no_plaintext_waiver [OF testRegistry_names t(2) d(2), of mockMech_Mech]
    unfolding l
    by (simp add: testClient_simps testRegistry_Properties propSet_waive propSet_subset_iff
        Sec_defs Feat_defs)
  from A B show ?thesis by simp
qed

text \<open>
  Claim C2. When the peer's token unwraps to four bytes and the strength check passes, the
  quality of protection is chosen by priority: confidentiality when supported, offered,
  allowed and sufficient (the negotiated strength is the channel's); otherwise integrity
  when supported, offered, with at least 1 allowed and at most 2 needed (strength 1);
  otherwise none when supported, offered and nothing is needed (strength 0); otherwise the
  step fails with \<open>ErrNoSecurityLayer\<close>. In particular, with integrity supported, the
  peer offering none and integrity, and the allowed strength below the channel's but at
  least 1, and at most 2 needed, integrity is chosen.
\<close>

theorem qop_priority:
  assumes unwrap: "gss_Unwrap g (client m) tok = ((Some bs, conf, None), cl)"
      and len: "length bs = 4"
      and strong: "\<not> MinSSF (config m) > gss_SSF g cl + ExternalSSF (config m)"
  shows
   "(let ch = gss_SSF g cl; m1 = m\<lparr>client := cl\<rparr>; r = stepSSFCap g m tok;
         c_ok = spec_conf_ok (qop m) (bs ! 0) (config m) (unat ch);
         i_ok = spec_integ_ok (qop m) (bs ! 0) (config m);
         n_ok = spec_none_ok (qop m) (bs ! 0) (config m)
     in (c_ok \<longrightarrow> mech_ssf (snd r) = ch \<and>
           (\<exists>q. (q = layerConfidentiality \<or> q = layerConfidentiality OR layerIntegrity) \<and>
                r = stepSSFCap_finish g (m1\<lparr>mech_ssf := ch\<rparr>) q bs)) \<and>
        (\<not> c_ok \<and> i_ok \<longrightarrow> mech_ssf (snd r) = 1 \<and>
           r = stepSSFCap_finish g (m1\<lparr>mech_ssf := 1\<rparr>) layerIntegrity bs) \<and>
        (\<not> c_ok \<and> \<not> i_ok \<and> n_ok \<longrightarrow> mech_ssf (snd r) = 0 \<and>
           r = stepSSFCap_finish g (m1\<lparr>mech_ssf := 0\<rparr>) layerNone bs) \<and>
        (\<not> c_ok \<and> \<not> i_ok \<and> \<not> n_ok \<longrightarrow> r = ((None, Some ErrNoSecurityLayer), m1)) \<and>
        (bit (qop m) 1 \<and> bs ! 0 = layerNone OR layerIntegrity \<and>
         \<not> spec_allowedSSF (config m) \<ge> unat ch \<and> spec_allowedSSF (config m) \<ge> 1 \<and>
         spec_needSSF (config m) \<le> 2 \<longrightarrow>
           mech_ssf (snd r) = 1 \<and>
           r = stepSSFCap_finish g (m1\<lparr>mech_ssf := 1\<rparr>) layerIntegrity bs))"
proof -
  let ?m1 = "m\<lparr>client := cl\<rparr>"
  have r: "stepSSFCap g m tok =
      (case stepSSFCap_choice ?m1 (bs ! 0) (gss_SSF g cl)
              (stepSSFCap_allowedSSF (config ?m1)) (stepSSFCap_needSSF (config ?m1)) of
         None \<Rightarrow> ((None, Some ErrNoSecurityLayer), ?m1)
       | Some (qopChoice, m2) \<Rightarrow> stepSSFCap_finish g m2 qopChoice bs)"
    using stepSSFCap_unwrapped [OF unwrap len] strong by simp
  have p: "bit (qop m) 1 \<and> bs ! 0 = layerNone OR layerIntegrity \<and>
         \<not> spec_allowedSSF (config m) \<ge> unat (gss_SSF g cl) \<and> spec_allowedSSF (config m) \<ge> 1 \<and>
         spec_needSSF (config m) \<le> 2 \<Longrightarrow>
         \<not> spec_conf_ok (qop m) (bs ! 0) (config m) (unat (gss_SSF g cl)) \<and>
         spec_integ_ok (qop m) (bs ! 0) (config m)"
    by (simp add: spec_conf_ok_def spec_integ_ok_def layer_defs bit_or_iff)
  show ?thesis
    unfolding Let_def r stepSSFCap_choice_spec
    using p by (auto split: option.splits)
qed

text \<open>
  A channel of strength 256, at most 1 allowed, everything supported, the peer offering
  none and integrity: the reply names integrity and the negotiated strength is 1.
\<close>

theorem qop_priority_witness:
  "stepSSFCap (stubGSS 256 48) (offerMech (stubConfig 0 1 0 65536 False Map.empty) 7)
     (Some [3, 0, 0, 0]) =
   ((Some [2, 1, 0, 0], None),
    (offerMech (stubConfig 0 1 0 65536 False Map.empty) 7)
      \<lparr>mech_ssf := 1, state := stateAuthenticated\<rparr>)"
proof -
  let ?g = "stubGSS 256 48"
  let ?cfg = "stubConfig 0 1 0 65536 False Map.empty"
  let ?m = "offerMech ?cfg 7"
  have u: "gss_Unwrap ?g (client ?m) (Some [3, 0, 0, 0]) = ((Some [3, 0, 0, 0], False, None), True)"
    by (simp add: stubGSS_def offerMech_def gssapi_NewMech_def)
  have l: "length [3::byte, 0, 0, 0] = 4" by simp
  have s: "\<not> MinSSF (config ?m) > gss_SSF ?g True + ExternalSSF (config ?m)"
    by (simp add: stubGSS_def offerMech_def gssapi_NewMech_def stubConfig_def)
  have "stepSSFCap ?g ?m (Some [3, 0, 0, 0]) =
        stepSSFCap_finish ?g (?m\<lparr>client := True, mech_ssf := 1\<rparr>) layerIntegrity [3, 0, 0, 0]"
    using qop_priority [OF u l s]
    by (simp add: Let_def offerMech_def gssapi_NewMech_def stubConfig_def stubGSS_def
        spec_allowedSSF_def spec_needSSF_def layer_defs)
  then show ?thesis
    by (simp add: stepSSFCap_finish_def stepSSFCap_dataOut_def serverMaxInput_def minUint_def
        Let_def offerMech_def gssapi_NewMech_def stubConfig_def stubGSS_def layer_defs)
qed

text \<open>
  Claim C5, as amended. For a token that unwraps to four bytes, the step fails with
  \<open>ErrTooWeak\<close> exactly when the sum of the channel's and the external strength, as the
  64-bit unsigned addition computes it (modulo \<open>2 ^ 64\<close>), is below the required minimum;
  the error then carries the channel's strength, the external strength and the minimum.
  Whenever the sum does not leave the range of \<open>uint\<close>, that is the comparison of the sum
  of the three numbers itself.
\<close>

theorem too_weak_check:
  assumes unwrap: "gss_Unwrap g (client m) tok = ((Some bs, conf, None), cl)"
      and len: "length bs = 4"
  shows "((\<exists>a b c. snd (fst (stepSSFCap g m tok)) = Some (ErrTooWeak a b c)) \<longleftrightarrow>
            (unat (gss_SSF g cl) + unat (ExternalSSF (config m))) mod 2 ^ 64
              < unat (MinSSF (config m))) \<and>
         (\<forall>a b c. snd (fst (stepSSFCap g m tok)) = Some (ErrTooWeak a b c) \<longrightarrow>
            a = gss_SSF g cl \<and> b = ExternalSSF (config m) \<and> c = MinSSF (config m)) \<and>
         (unat (gss_SSF g cl) + unat (ExternalSSF (config m)) < 2 ^ 64 \<longrightarrow>
            ((\<exists>a b c. snd (fst (stepSSFCap g m tok)) = Some (ErrTooWeak a b c)) \<longleftrightarrow>
             unat (gss_SSF g cl) + unat (ExternalSSF (config m)) < unat (MinSSF (config m))))"
proof -
  let ?weak = "MinSSF (config m) > gss_SSF g cl + ExternalSSF (config m)"
  let ?tw = "\<exists>a b c. snd (fst (stepSSFCap g m tok)) = Some (ErrTooWeak a b c)"
  have w: "?weak \<longleftrightarrow> (unat (gss_SSF g cl) + unat (ExternalSSF (config m))) mod 2 ^ 64
              < unat (MinSSF (config m))"
    by (simp add: word_less_nat_alt unat_word_ariths)
  have 1: "?weak \<Longrightarrow> fst (stepSSFCap g m tok) =
      (None, Some (ErrTooWeak (gss_SSF g cl) (ExternalSSF (config m)) (MinSSF (config m))))"
    by (simp add: stepSSFCap_unwrapped [OF unwrap len])
  have 2: "\<not> ?weak \<Longrightarrow> \<not> ?tw"
    using stepSSFCap_strong_err [OF unwrap len] by auto
  have iff: "?tw \<longleftrightarrow> ?weak" using 1 2 by (cases ?weak) auto
  have carry: "\<forall>a b c. snd (fst (stepSSFCap g m tok)) = Some (ErrTooWeak a b c) \<longrightarrow>
            a = gss_SSF g cl \<and> b = ExternalSSF (config m) \<and> c = MinSSF (config m)"
    using 1 2 by (cases ?weak) auto
  show ?thesis
    unfolding iff w using carry by simp
qed

text \<open>A channel of strength 56 with no external layer, against a minimum of 128.\<close>

theorem too_weak_check_witness:
  "fst (stepSSFCap (stubGSS 56 48) (offerMech (stubConfig 128 256 0 65536 False Map.empty) 7)
     (Some [7, 0, 0, 0])) = (None, Some (ErrTooWeak 56 0 128)) \<and>
   unat (56 :: uint) + unat (0 :: uint) < unat (128 :: uint)"
proof -
  let ?g = "stubGSS 56 48"
  let ?m = "offerMech (stubConfig 128 256 0 65536 False Map.empty) 7"
  have u: "gss_Unwrap ?g (client ?m) (Some [7, 0, 0, 0]) = ((Some [7, 0, 0, 0], False, None), True)"
    by (simp add: stubGSS_def offerMech_def gssapi_NewMech_def)
  have l: "length [7::byte, 0, 0, 0] = 4" by simp
  have "\<exists>a b c. snd (fst (stepSSFCap ?g ?m (Some [7, 0, 0, 0]))) = Some (ErrTooWeak a b c)"
    using too_weak_check [OF u l, THEN conjunct1]
    by (simp add: stubGSS_def offerMech_def gssapi_NewMech_def stubConfig_def)
  then have "snd (fst (stepSSFCap ?g ?m (Some [7, 0, 0, 0]))) = Some (ErrTooWeak 56 0 128)"
    using too_weak_check [OF u l, THEN conjunct2, THEN conjunct1]
    by (auto simp: stubGSS_def offerMech_def gssapi_NewMech_def stubConfig_def)
  moreover have "fst (fst (stepSSFCap ?g ?m (Some [7, 0, 0, 0]))) = None"
    by (subst stepSSFCap_unwrapped [OF u l])
       (simp add: stubGSS_def offerMech_def gssapi_NewMech_def stubConfig_def)
  ultimately show ?thesis by (simp add: prod_eq_iff)
qed

text \<open>
  The claim as stated, for all non-negative integers, fails where the addition wraps: with
  a channel strength of \<open>2 ^ 64 - 1\<close>, an external strength of 1 and a minimum of 1 the sum
  is not below the minimum, and the step fails with \<open>ErrTooWeak\<close>.
\<close>

theorem too_weak_wraps_counterexample:
  "fst (stepSSFCap (stubGSS 18446744073709551615 48)
          (offerMech (stubConfig 1 18446744073709551615 1 65536 False Map.empty) 7)
          (Some [7, 0, 0, 0])) = (None, Some (ErrTooWeak 18446744073709551615 1 1)) \<and>
   \<not> unat (18446744073709551615 :: uint) + unat (1 :: uint) < unat (1 :: uint)"
  by (simp add: stepSSFCap_def Let_def lenBytes_def stubGSS_def offerMech_def gssapi_NewMech_def
        stubConfig_def)

text \<open>
  Claim C3. A payload that unwraps to any length but four makes the step fail with
  \<open>ErrBadToken\<close> (carrying the length); a payload of four bytes never does. For every
  payload of four bytes the outcome is fixed by byte 0, read as the peer's mask (bit 0 none,
  bit 1 integrity, bit 2 confidentiality), and by bytes 1 to 3, read as the big-endian peer
  buffer size: after the strength check, confidentiality is taken when bit 2 is offered
  (and supported, allowed and sufficient), else integrity when bit 1 is, else none when
  bit 0 is, else the step fails with \<open>ErrNoSecurityLayer\<close>; whenever a layer is taken the
  recorded peer buffer size is the number in bytes 1 to 3, clamped by the external context
  when the negotiated strength is positive, and the reply handed to the external context
  starts with the chosen mask. The bytes 1, 255, 255, 255 decode to
  \<open>65536 * 255 + 256 * 255 + 255\<close>.
\<close>

theorem offer_token_decoding:
  "(gss_Unwrap g (client m) tok = ((data, conf, None), cl) \<and> lenBytes data \<noteq> 4 \<longrightarrow>
      stepSSFCap g m tok = ((None, Some (ErrBadToken (lenBytes data))), m\<lparr>client := cl\<rparr>)) \<and>
   (gss_Unwrap g (client m) tok = ((Some [b0, b1, b2, b3], conf, None), cl) \<longrightarrow>
      (let r = stepSSFCap g m tok; m1 = m\<lparr>client := cl\<rparr>; ch = gss_SSF g cl;
           sz = serverMaxInput [b0, b1, b2, b3];
           weak = (MinSSF (config m) > ch + ExternalSSF (config m));
           c_ok = (bit (qop m) 2 \<and> bit b0 2 \<and> spec_allowedSSF (config m) \<ge> unat ch \<and>
                   spec_needSSF (config m) \<le> unat ch);
           i_ok = (bit (qop m) 1 \<and> bit b0 1 \<and> spec_allowedSSF (config m) \<ge> 1 \<and>
                   spec_needSSF (config m) \<le> 2);
           n_ok = (bit (qop m) 0 \<and> bit b0 0 \<and> spec_needSSF (config m) \<le> 0)
       in (\<forall>n. snd (fst r) \<noteq> Some (ErrBadToken n)) \<and>
          (weak \<longrightarrow>
             r = ((None, Some (ErrTooWeak ch (ExternalSSF (config m)) (MinSSF (config m)))), m1)) \<and>
          (\<not> weak \<and> c_ok \<longrightarrow>
             (\<exists>q. (q = layerConfidentiality \<or> q = layerConfidentiality OR layerIntegrity) \<and>
                  r = stepSSFCap_finish g (m1\<lparr>mech_ssf := ch\<rparr>) q [b0, b1, b2, b3]) \<and>
             mech_ssf (snd r) = ch \<and>
             maxOutputBufferSz (snd r) =
               (if ch > 0 then gss_WrapSizeLimit g cl sz (ch > 1) else sz)) \<and>
          (\<not> weak \<and> \<not> c_ok \<and> i_ok \<longrightarrow>
             r = stepSSFCap_finish g (m1\<lparr>mech_ssf := 1\<rparr>) layerIntegrity [b0, b1, b2, b3] \<and>
             mech_ssf (snd r) = 1 \<and>
             maxOutputBufferSz (snd r) = gss_WrapSizeLimit g cl sz False) \<and>
          (\<not> weak \<and> \<not> c_ok \<and> \<not> i_ok \<and> n_ok \<longrightarrow>
             r = stepSSFCap_finish g (m1\<lparr>mech_ssf := 0\<rparr>) layerNone [b0, b1, b2, b3] \<and>
             mech_ssf (snd r) = 0 \<and> maxOutputBufferSz (snd r) = sz) \<and>
          (\<not> weak \<and> \<not> c_ok \<and> \<not> i_ok \<and> \<not> n_ok \<longrightarrow>
             r = ((None, Some ErrNoSecurityLayer), m1)) \<and>
          (snd (fst r) = None \<longrightarrow>
             maxOutputBufferSz (snd r) =
               (if mech_ssf (snd r) > 0 then gss_WrapSizeLimit g cl sz (mech_ssf (snd r) > 1)
                else sz) \<and>
             (\<exists>q. gss_Wrap g cl (Some (stepSSFCap_dataOut (config m) q)) False =
                    ((fst (fst r), None), client (snd r)) \<and>
                  (q = layerNone \<and> bit b0 0 \<or> q = layerIntegrity \<and> bit b0 1 \<or>
                   (q = layerConfidentiality \<or> q = layerConfidentiality OR layerIntegrity) \<and>
                   bit b0 2))))) \<and>
   (\<forall>q m2 bs. fst (stepSSFCap_finish g m2 q bs) =
      (case gss_Wrap g (client m2) (Some (q # tl (stepSSFCap_dataOut (config m2) q))) False of
         ((outToken, Some e), cl2) \<Rightarrow> (None, Some (ErrGSS e))
       | ((outToken, None), cl2) \<Rightarrow> (outToken, None))) \<and>
   unat (serverMaxInput [b0, b1, b2, b3]) = 65536 * unat b1 + 256 * unat b2 + unat b3 \<and>
   unat (serverMaxInput [1, 255, 255, 255]) = 65536 * 255 + 256 * 255 + 255"
proof (intro conjI impI allI)
  assume "gss_Unwrap g (client m) tok = ((data, conf, None), cl) \<and> lenBytes data \<noteq> 4"
  then show "stepSSFCap g m tok = ((None, Some (ErrBadToken (lenBytes data))), m\<lparr>client := cl\<rparr>)"
    by (simp add: stepSSFCap_bad_length)
next
  assume u: "gss_Unwrap g (client m) tok = ((Some [b0, b1, b2, b3], conf, None), cl)"
  let ?bs = "[b0, b1, b2, b3]"
  let ?m1 = "m\<lparr>client := cl\<rparr>"
  let ?ch = "gss_SSF g cl"
  let ?sz = "serverMaxInput ?bs"
  let ?r = "stepSSFCap g m tok"
  let ?weak = "MinSSF (config m) > ?ch + ExternalSSF (config m)"
  define c_ok where "c_ok \<longleftrightarrow> bit (qop m) 2 \<and> bit b0 2 \<and> spec_allowedSSF (config m) \<ge> unat ?ch \<and>
                   spec_needSSF (config m) \<le> unat ?ch"
  define i_ok where "i_ok \<longleftrightarrow> bit (qop m) 1 \<and> bit b0 1 \<and> spec_allowedSSF (config m) \<ge> 1 \<and>
                   spec_needSSF (config m) \<le> 2"
  define n_ok where "n_ok \<longleftrightarrow> bit (qop m) 0 \<and> bit b0 0 \<and> spec_needSSF (config m) \<le> 0"
  have l: "length ?bs = 4" by simp
  have ok: "spec_conf_ok (qop ?m1) (?bs ! 0) (config ?m1) (unat ?ch) = c_ok"
           "spec_integ_ok (qop ?m1) (?bs ! 0) (config ?m1) = i_ok"
           "spec_none_ok (qop ?m1) (?bs ! 0) (config ?m1) = n_ok"
    by (simp_all add: spec_conf_ok_def spec_integ_ok_def spec_none_ok_def c_ok_def i_ok_def n_ok_def)
  have w: "?weak \<Longrightarrow>
      ?r = ((None, Some (ErrTooWeak ?ch (ExternalSSF (config m)) (MinSSF (config m)))), ?m1)"
    by (simp add: stepSSFCap_unwrapped [OF u l])
  have s: "\<not> ?weak \<Longrightarrow> ?r =
      (case stepSSFCap_choice ?m1 (?bs ! 0) ?ch
              (stepSSFCap_allowedSSF (config ?m1)) (stepSSFCap_needSSF (config ?m1)) of
         None \<Rightarrow> ((None, Some ErrNoSecurityLayer), ?m1)
       | Some (qopChoice, m2) \<Rightarrow> stepSSFCap_finish g m2 qopChoice ?bs)"
    using stepSSFCap_unwrapped [OF u l] by simp
  have w': "?weak \<longrightarrow>
      ?r = ((None, Some (ErrTooWeak ?ch (ExternalSSF (config m)) (MinSSF (config m)))), ?m1)"
    using w by blast
  note s' = s [unfolded stepSSFCap_choice_spec ok]
  have nb: "\<forall>n. snd (fst ?r) \<noteq> Some (ErrBadToken n)"
  proof (cases ?weak)
    case True
    then show ?thesis by (simp add: w)
  next
    case False
    with stepSSFCap_strong_err [OF u l] show ?thesis by auto
  qed
  have c: "\<not> ?weak \<and> c_ok \<longrightarrow>
             (\<exists>q. (q = layerConfidentiality \<or> q = layerConfidentiality OR layerIntegrity) \<and>
                  ?r = stepSSFCap_finish g (?m1\<lparr>mech_ssf := ?ch\<rparr>) q ?bs) \<and>
             mech_ssf (snd ?r) = ?ch \<and>
             maxOutputBufferSz (snd ?r) =
               (if ?ch > 0 then gss_WrapSizeLimit g cl ?sz (?ch > 1) else ?sz)"
  proof
    assume a: "\<not> ?weak \<and> c_ok"
    define q where "q = (case ExtraProps (config ?m1) ''ad_compat'' of
                   Some val \<Rightarrow> (if isTrue val then layerConfidentiality OR layerIntegrity
                                else layerConfidentiality)
                 | None \<Rightarrow> layerConfidentiality)"
    have qq: "q = layerConfidentiality \<or> q = layerConfidentiality OR layerIntegrity"
      by (simp add: q_def split: option.splits)
    from a have r: "?r = stepSSFCap_finish g (?m1\<lparr>mech_ssf := ?ch\<rparr>) q ?bs"
      using s' by (simp add: q_def)
    have "mech_ssf (snd ?r) = ?ch" by (simp add: r)
    moreover have "maxOutputBufferSz (snd ?r) =
               (if ?ch > 0 then gss_WrapSizeLimit g cl ?sz (?ch > 1) else ?sz)"
      by (simp add: r stepSSFCap_finish_size)
    ultimately show "(\<exists>q. (q = layerConfidentiality \<or> q = layerConfidentiality OR layerIntegrity) \<and>
                  ?r = stepSSFCap_finish g (?m1\<lparr>mech_ssf := ?ch\<rparr>) q ?bs) \<and>
             mech_ssf (snd ?r) = ?ch \<and>
             maxOutputBufferSz (snd ?r) =
               (if ?ch > 0 then gss_WrapSizeLimit g cl ?sz (?ch > 1) else ?sz)"
      using qq r by blast
  qed
  have i: "\<not> ?weak \<and> \<not> c_ok \<and> i_ok \<longrightarrow>
             ?r = stepSSFCap_finish g (?m1\<lparr>mech_ssf := 1\<rparr>) layerIntegrity ?bs \<and>
             mech_ssf (snd ?r) = 1 \<and>
             maxOutputBufferSz (snd ?r) = gss_WrapSizeLimit g cl ?sz False"
  proof
    assume a: "\<not> ?weak \<and> \<not> c_ok \<and> i_ok"
    then have r: "?r = stepSSFCap_finish g (?m1\<lparr>mech_ssf := 1\<rparr>) layerIntegrity ?bs"
      using s' by simp
    show "?r = stepSSFCap_finish g (?m1\<lparr>mech_ssf := 1\<rparr>) layerIntegrity ?bs \<and>
             mech_ssf (snd ?r) = 1 \<and>
             maxOutputBufferSz (snd ?r) = gss_WrapSizeLimit g cl ?sz False"
      by (simp add: r stepSSFCap_finish_size)
  qed
  have n: "\<not> ?weak \<and> \<not> c_ok \<and> \<not> i_ok \<and> n_ok \<longrightarrow>
             ?r = stepSSFCap_finish g (?m1\<lparr>mech_ssf := 0\<rparr>) layerNone ?bs \<and>
             mech_ssf (snd ?r) = 0 \<and> maxOutputBufferSz (snd ?r) = ?sz"
  proof
    assume a: "\<not> ?weak \<and> \<not> c_ok \<and> \<not> i_ok \<and> n_ok"
    then have r: "?r = stepSSFCap_finish g (?m1\<lparr>mech_ssf := 0\<rparr>) layerNone ?bs"
      using s' by simp
    show "?r = stepSSFCap_finish g (?m1\<lparr>mech_ssf := 0\<rparr>) layerNone ?bs \<and>
             mech_ssf (snd ?r) = 0 \<and> maxOutputBufferSz (snd ?r) = ?sz"
      by (simp add: r stepSSFCap_finish_size)
  qed
  have e: "\<not> ?weak \<and> \<not> c_ok \<and> \<not> i_ok \<and> \<not> n_ok \<longrightarrow>
             ?r = ((None, Some ErrNoSecurityLayer), ?m1)"
    using s' by simp
  have su: "snd (fst ?r) = None \<longrightarrow>
             maxOutputBufferSz (snd ?r) =
               (if mech_ssf (snd ?r) > 0 then gss_WrapSizeLimit g cl ?sz (mech_ssf (snd ?r) > 1)
                else ?sz) \<and>
             (\<exists>q. gss_Wrap g cl (Some (stepSSFCap_dataOut (config m) q)) False =
                    ((fst (fst ?r), None), client (snd ?r)) \<and>
                  (q = layerNone \<and> bit b0 0 \<or> q = layerIntegrity \<and> bit b0 1 \<or>
                   (q = layerConfidentiality \<or> q = layerConfidentiality OR layerIntegrity) \<and>
                   bit b0 2))"
  proof
    assume ok: "snd (fst ?r) = None"
    from u l ok obtain q m2 where
      ch: "stepSSFCap_choice ?m1 (?bs ! 0) ?ch
         (stepSSFCap_allowedSSF (config m)) (stepSSFCap_needSSF (config m)) = Some (q, m2)"
      and r: "?r = stepSSFCap_finish g m2 q ?bs"
      by (rule stepSSFCap_success)
    from ok r have ok': "snd (fst (stepSSFCap_finish g m2 q ?bs)) = None" by simp
    note cc = stepSSFCap_choice_Some [OF ch]
    have cl: "client m2 = cl" and cfg: "config m2 = config m" using cc(1,2) by simp_all
    have 1: "maxOutputBufferSz (snd ?r) =
              (if mech_ssf (snd ?r) > 0
               then gss_WrapSizeLimit g cl ?sz (mech_ssf (snd ?r) > 1) else ?sz)"
      using stepSSFCap_finish_success(3) [OF ok'] by (simp add: r cl)
    have 2: "gss_Wrap g cl (Some (stepSSFCap_dataOut (config m) q)) False =
               ((fst (fst ?r), None), client (snd ?r))"
      using stepSSFCap_finish_success(1) [OF ok'] by (simp add: r cl cfg)
    from cc(3) have 3: "q = layerNone \<and> bit b0 0 \<or> q = layerIntegrity \<and> bit b0 1 \<or>
                  (q = layerConfidentiality \<or> q = layerConfidentiality OR layerIntegrity) \<and>
                  bit b0 2" by simp
    from 1 2 3 show "maxOutputBufferSz (snd ?r) =
               (if mech_ssf (snd ?r) > 0 then gss_WrapSizeLimit g cl ?sz (mech_ssf (snd ?r) > 1)
                else ?sz) \<and>
             (\<exists>q. gss_Wrap g cl (Some (stepSSFCap_dataOut (config m) q)) False =
                    ((fst (fst ?r), None), client (snd ?r)) \<and>
                  (q = layerNone \<and> bit b0 0 \<or> q = layerIntegrity \<and> bit b0 1 \<or>
                   (q = layerConfidentiality \<or> q = layerConfidentiality OR layerIntegrity) \<and>
                   bit b0 2))" by blast
  qed
  show "let r = stepSSFCap g m tok; m1 = m\<lparr>client := cl\<rparr>; ch = gss_SSF g cl;
           sz = serverMaxInput [b0, b1, b2, b3];
           weak = (MinSSF (config m) > ch + ExternalSSF (config m));
           c_ok = (bit (qop m) 2 \<and> bit b0 2 \<and> spec_allowedSSF (config m) \<ge> unat ch \<and>
                   spec_needSSF (config m) \<le> unat ch);
           i_ok = (bit (qop m) 1 \<and> bit b0 1 \<and> spec_allowedSSF (config m) \<ge> 1 \<and>
                   spec_needSSF (config m) \<le> 2);
           n_ok = (bit (qop m) 0 \<and> bit b0 0 \<and> spec_needSSF (config m) \<le> 0)
       in (\<forall>n. snd (fst r) \<noteq> Some (ErrBadToken n)) \<and>
          (weak \<longrightarrow>
             r = ((None, Some (ErrTooWeak ch (ExternalSSF (config m)) (MinSSF (config m)))), m1)) \<and>
          (\<not> weak \<and> c_ok \<longrightarrow>
             (\<exists>q. (q = layerConfidentiality \<or> q = layerConfidentiality OR layerIntegrity) \<and>
                  r = stepSSFCap_finish g (m1\<lparr>mech_ssf := ch\<rparr>) q [b0, b1, b2, b3]) \<and>
             mech_ssf (snd r) = ch \<and>
             maxOutputBufferSz (snd r) =
               (if ch > 0 then gss_WrapSizeLimit g cl sz (ch > 1) else sz)) \<and>
          (\<not> weak \<and> \<not> c_ok \<and> i_ok \<longrightarrow>
             r = stepSSFCap_finish g (m1\<lparr>mech_ssf := 1\<rparr>) layerIntegrity [b0, b1, b2, b3] \<and>
             mech_ssf (snd r) = 1 \<and>
             maxOutputBufferSz (snd r) = gss_WrapSizeLimit g cl sz False) \<and>
          (\<not> weak \<and> \<not> c_ok \<and> \<not> i_ok \<and> n_ok \<longrightarrow>
             r = stepSSFCap_finish g (m1\<lparr>mech_ssf := 0\<rparr>) layerNone [b0, b1, b2, b3] \<and>
             mech_ssf (snd r) = 0 \<and> maxOutputBufferSz (snd r) = sz) \<and>
          (\<not> weak \<and> \<not> c_ok \<and> \<not> i_ok \<and> \<not> n_ok \<longrightarrow>
             r = ((None, Some ErrNoSecurityLayer), m1)) \<and>
          (snd (fst r) = None \<longrightarrow>
             maxOutputBufferSz (snd r) =
               (if mech_ssf (snd r) > 0 then gss_WrapSizeLimit g cl sz (mech_ssf (snd r) > 1)
                else sz) \<and>
             (\<exists>q. gss_Wrap g cl (Some (stepSSFCap_dataOut (config m) q)) False =
                    ((fst (fst r), None), client (snd r)) \<and>
                  (q = layerNone \<and> bit b0 0 \<or> q = layerIntegrity \<and> bit b0 1 \<or>
                   (q = layerConfidentiality \<or> q = layerConfidentiality OR layerIntegrity) \<and>
                   bit b0 2)))"
    unfolding Let_def c_ok_def [symmetric] i_ok_def [symmetric] n_ok_def [symmetric]
    by (intro conjI) (rule nb, rule w', rule c, rule i, rule n, rule e, rule su)
next
  fix q m2 bs
  show "fst (stepSSFCap_finish g m2 q bs) =
      (case gss_Wrap g (client m2) (Some (q # tl (stepSSFCap_dataOut (config m2) q))) False of
         ((outToken, Some e), cl2) \<Rightarrow> (None, Some (ErrGSS e))
       | ((outToken, None), cl2) \<Rightarrow> (outToken, None))"
    by (rule stepSSFCap_finish_reply)
next
  show "unat (serverMaxInput [b0, b1, b2, b3]) = 65536 * unat b1 + 256 * unat b2 + unat b3"
    by (rule serverMaxInput_nat)
next
  show "unat (serverMaxInput [1, 255, 255, 255]) = 65536 * 255 + 256 * 255 + 255"
    by (simp add: serverMaxInput_nat)
qed

text \<open>
  Against a channel of strength 56 with everything supported: three bytes are refused; the
  offers 4, 2 and 1 give confidentiality, integrity and none, with the peer buffer sizes
  16777215, 256 and 1 of their bytes 1 to 3; the offer 0 gives \<open>ErrNoSecurityLayer\<close>.
\<close>

theorem offer_token_decoding_witness:
  "stepSSFCap (stubGSS 56 48) (offerMech (stubConfig 0 256 0 65536 False Map.empty) 7)
     (Some [1, 2, 3]) =
     ((None, Some (ErrBadToken 3)), offerMech (stubConfig 0 256 0 65536 False Map.empty) 7) \<and>
   mech_ssf (snd (stepSSFCap (stubGSS 56 48)
     (offerMech (stubConfig 0 256 0 65536 False Map.empty) 7) (Some [4, 255, 255, 255]))) = 56 \<and>
   maxOutputBufferSz (snd (stepSSFCap (stubGSS 56 48)
     (offerMech (stubConfig 0 256 0 65536 False Map.empty) 7) (Some [4, 255, 255, 255])))
     = 16777215 \<and>
   stepSSFCap (stubGSS 56 48) (offerMech (stubConfig 0 256 0 65536 False Map.empty) 7)
     (Some [2, 0, 1, 0]) =
     ((Some [2, 1, 0, 0], None),
      (offerMech (stubConfig 0 256 0 65536 False Map.empty) 7)
        \<lparr>mech_ssf := 1, state := stateAuthenticated, maxOutputBufferSz := 256\<rparr>) \<and>
   stepSSFCap (stubGSS 56 48) (offerMech (stubConfig 0 256 0 65536 False Map.empty) 7)
     (Some [1, 0, 0, 1]) =
     ((Some [1, 0, 0, 0], None),
      (offerMech (stubConfig 0 256 0 65536 False Map.empty) 7)
        \<lparr>mech_ssf := 0, state := stateAuthenticated, maxOutputBufferSz := 1\<rparr>) \<and>
   stepSSFCap (stubGSS 56 48) (offerMech (stubConfig 0 256 0 65536 False Map.empty) 7)
     (Some [0, 0, 0, 0]) =
     ((None, Some ErrNoSecurityLayer), offerMech (stubConfig 0 256 0 65536 False Map.empty) 7)"
proof -
  let ?g = "stubGSS 56 48"
  let ?m = "offerMech (stubConfig 0 256 0 65536 False Map.empty) 7"
  note defs = stubGSS_def offerMech_def gssapi_NewMech_def stubConfig_def
    spec_allowedSSF_def spec_needSSF_def
  note fin = stepSSFCap_finish_def stepSSFCap_dataOut_def serverMaxInput_def minUint_def
    Let_def layer_defs
  have u: "gss_Unwrap ?g (client ?m) (Some bs) = ((Some bs, False, None), True)" for bs
    by (simp add: defs)
  have m1: "?m\<lparr>client := True\<rparr> = ?m" by (simp add: defs)
  have u3: "gss_Unwrap ?g (client ?m) (Some [1, 2, 3]) = ((Some [1, 2, 3], False, None), True) \<and>
            lenBytes (Some [1 :: byte, 2, 3]) \<noteq> 4"
    by (simp add: u lenBytes_def)
  have A: "stepSSFCap ?g ?m (Some [1, 2, 3]) = ((None, Some (ErrBadToken 3)), ?m)"
    using offer_token_decoding [of ?g ?m "Some [1, 2, 3]" "Some [1, 2, 3]" False True,
        THEN conjunct1, rule_format, OF u3]
    by (simp add: lenBytes_def m1)
  note T = offer_token_decoding [of ?g ?m _ None False True, THEN conjunct2, THEN conjunct1,
      rule_format, OF u, unfolded Let_def]
  have B: "mech_ssf (snd (stepSSFCap ?g ?m (Some [4, 255, 255, 255]))) = 56 \<and>
           maxOutputBufferSz (snd (stepSSFCap ?g ?m (Some [4, 255, 255, 255]))) = 16777215"
    using T [of 4 255 255 255, THEN conjunct2, THEN conjunct2, THEN conjunct1]
    by (simp add: defs serverMaxInput_def)
  have "stepSSFCap ?g ?m (Some [2, 0, 1, 0]) =
        stepSSFCap_finish ?g (?m\<lparr>client := True, mech_ssf := 1\<rparr>) layerIntegrity [2, 0, 1, 0]"
    using T [of 2 0 1 0, THEN conjunct2, THEN conjunct2, THEN conjunct2, THEN conjunct1]
    by (simp add: defs)
  then have C: "stepSSFCap ?g ?m (Some [2, 0, 1, 0]) =
     ((Some [2, 1, 0, 0], None),
      ?m\<lparr>mech_ssf := 1, state := stateAuthenticated, maxOutputBufferSz := 256\<rparr>)"
    by (simp add: fin defs)
  have "stepSSFCap ?g ?m (Some [1, 0, 0, 1]) =
        stepSSFCap_finish ?g (?m\<lparr>client := True, mech_ssf := 0\<rparr>) layerNone [1, 0, 0, 1]"
    using T [of 1 0 0 1, THEN conjunct2, THEN conjunct2, THEN conjunct2, THEN conjunct2,
        THEN conjunct1]
    by (simp add: defs)
  then have D: "stepSSFCap ?g ?m (Some [1, 0, 0, 1]) =
     ((Some [1, 0, 0, 0], None),
      ?m\<lparr>mech_ssf := 0, state := stateAuthenticated, maxOutputBufferSz := 1\<rparr>)"
    by (simp add: fin defs)
  have E: "stepSSFCap ?g ?m (Some [0, 0, 0, 0]) = ((None, Some ErrNoSecurityLayer), ?m)"
    using T [of 0 0 0 0, THEN conjunct2, THEN conjunct2, THEN conjunct2, THEN conjunct2,
        THEN conjunct2, THEN conjunct1]
    by (simp add: defs)
  from A B C D E show ?thesis by simp
qed

text \<open>
  Claim C6. The four bytes of the reply are the chosen mask followed by the big-endian 24
  bits of \<open>min(MaxBufSize, 0xFFFFFF)\<close> when the mask is above "none", and by zeros
  otherwise. When the step succeeds, its output token is what the external context's
  \<open>Wrap\<close> returns for exactly these bytes with the confidentiality flag off, and the
  mechanism is established. The mask 4 with a buffer size of 65793 gives 4, 1, 1, 1.
\<close>

theorem reply_token_encoding:
  "stepSSFCap_dataOut cfg q = spec_reply q (unat (MaxBufSize cfg)) \<and>
   (gss_Unwrap g (client m) tok = ((Some bs, conf, None), cl) \<and> length bs = 4 \<and>
    snd (fst (stepSSFCap g m tok)) = None \<longrightarrow>
      (\<exists>q' m2. stepSSFCap_choice (m\<lparr>client := cl\<rparr>) (bs ! 0) (gss_SSF g cl)
                  (stepSSFCap_allowedSSF (config m)) (stepSSFCap_needSSF (config m)) =
                  Some (q', m2) \<and>
               gss_Wrap g cl (Some (spec_reply q' (unat (MaxBufSize (config m))))) False =
                 ((fst (fst (stepSSFCap g m tok)), None), client (snd (stepSSFCap g m tok))) \<and>
               state (snd (stepSSFCap g m tok)) = stateAuthenticated)) \<and>
   stepSSFCap_dataOut (cfg\<lparr>MaxBufSize := 65793\<rparr>) 4 = [4, 1, 1, 1]"
proof (intro conjI impI)
  show "stepSSFCap_dataOut cfg q = spec_reply q (unat (MaxBufSize cfg))"
    by (rule stepSSFCap_dataOut_spec)
next
  assume a: "gss_Unwrap g (client m) tok = ((Some bs, conf, None), cl) \<and> length bs = 4 \<and>
    snd (fst (stepSSFCap g m tok)) = None"
  then have u: "gss_Unwrap g (client m) tok = ((Some bs, conf, None), cl)"
    and l: "length bs = 4" and ok: "snd (fst (stepSSFCap g m tok)) = None" by simp_all
  from u l ok obtain q' m2 where
    ch: "stepSSFCap_choice (m\<lparr>client := cl\<rparr>) (bs ! 0) (gss_SSF g cl)
       (stepSSFCap_allowedSSF (config m)) (stepSSFCap_needSSF (config m)) = Some (q', m2)"
    and r: "stepSSFCap g m tok = stepSSFCap_finish g m2 q' bs"
    by (rule stepSSFCap_success)
  from ok r have ok': "snd (fst (stepSSFCap_finish g m2 q' bs)) = None" by simp
  note c = stepSSFCap_choice_Some [OF ch]
  have cl: "client m2 = cl" and cfg: "config m2 = config m" using c(1,2) by simp_all
  have "gss_Wrap g cl (Some (spec_reply q' (unat (MaxBufSize (config m))))) False =
          ((fst (fst (stepSSFCap g m tok)), None), client (snd (stepSSFCap g m tok)))"
    using stepSSFCap_finish_success(1) [OF ok']
    by (simp add: r cl cfg stepSSFCap_dataOut_spec)
  moreover have "state (snd (stepSSFCap g m tok)) = stateAuthenticated"
    using stepSSFCap_finish_success(2) [OF ok'] by (simp add: r)
  ultimately show "\<exists>q' m2. stepSSFCap_choice (m\<lparr>client := cl\<rparr>) (bs ! 0) (gss_SSF g cl)
                  (stepSSFCap_allowedSSF (config m)) (stepSSFCap_needSSF (config m)) =
                  Some (q', m2) \<and>
               gss_Wrap g cl (Some (spec_reply q' (unat (MaxBufSize (config m))))) False =
                 ((fst (fst (stepSSFCap g m tok)), None), client (snd (stepSSFCap g m tok))) \<and>
               state (snd (stepSSFCap g m tok)) = stateAuthenticated"
    using ch by blast
next
  show "stepSSFCap_dataOut (cfg\<lparr>MaxBufSize := 65793\<rparr>) 4 = [4, 1, 1, 1]"
    by (simp add: stepSSFCap_dataOut_spec spec_reply_def)
qed

text \<open>
  With a context that wraps by the identity, a buffer size of 65793 and confidentiality
  chosen, the output token is 4, 1, 1, 1.
\<close>

theorem reply_token_encoding_witness:
  "fst (stepSSFCap (stubGSS 56 48) (offerMech (stubConfig 0 256 0 65793 False Map.empty) 7)
     (Some [7, 0, 0, 0])) = (Some [4, 1, 1, 1], None)"
proof -
  let ?g = "stubGSS 56 48"
  let ?m = "offerMech (stubConfig 0 256 0 65793 False Map.empty) 7"
  let ?r = "stepSSFCap ?g ?m (Some [7, 0, 0, 0])"
  have ok: "snd (fst ?r) = None"
    by (simp add: stepSSFCap_def stepSSFCap_choice_def stepSSFCap_finish_def
        stepSSFCap_allowedSSF_def stepSSFCap_needSSF_def Let_def lenBytes_def layer_defs
        stubGSS_def offerMech_def gssapi_NewMech_def stubConfig_def)
  have a: "gss_Unwrap ?g (client ?m) (Some [7, 0, 0, 0]) = ((Some [7, 0, 0, 0], False, None), True) \<and>
           length [7 :: byte, 0, 0, 0] = 4 \<and> snd (fst ?r) = None"
    using ok by (simp add: stubGSS_def offerMech_def gssapi_NewMech_def)
  have ch: "stepSSFCap_choice (?m\<lparr>client := True\<rparr>) ([7, 0, 0, 0] ! 0) (gss_SSF ?g True)
              (stepSSFCap_allowedSSF (config ?m)) (stepSSFCap_needSSF (config ?m)) =
            Some (4, ?m\<lparr>client := True, mech_ssf := 56\<rparr>)"
    by (simp add: stepSSFCap_choice_def stepSSFCap_allowedSSF_def stepSSFCap_needSSF_def
        layer_defs stubGSS_def offerMech_def gssapi_NewMech_def stubConfig_def)
  from reply_token_encoding [of _ _ ?g ?m "Some [7, 0, 0, 0]" "[7, 0, 0, 0]" False True,
      THEN conjunct2, THEN conjunct1, rule_format, OF a]
  obtain q' m2 where
    1: "stepSSFCap_choice (?m\<lparr>client := True\<rparr>) ([7, 0, 0, 0] ! 0) (gss_SSF ?g True)
              (stepSSFCap_allowedSSF (config ?m)) (stepSSFCap_needSSF (config ?m)) = Some (q', m2)"
    and 2: "gss_Wrap ?g True (Some (spec_reply q' (unat (MaxBufSize (config ?m))))) False =
            ((fst (fst ?r), None), client (snd ?r))"
    by blast
  from 1 ch have q: "q' = 4" by simp
  from 2 have "fst (fst ?r) = Some (spec_reply 4 65793)"
    unfolding q by (simp add: stubGSS_def offerMech_def gssapi_NewMech_def stubConfig_def)
  then have "fst (fst ?r) = Some [4, 1, 1, 1]" by (simp add: spec_reply_def)
  with ok show ?thesis by (simp add: prod_eq_iff)
qed

text \<open>
  Claim C10. When confidentiality is chosen, the mask of the reply is confidentiality with
  integrity exactly when the extra property \<open>ad_compat\<close> is present with one of the
  values "1", "y", "on", "t"; in every other case it is confidentiality alone.
\<close>

theorem ad_compat_carve_out:
  assumes unwrap: "gss_Unwrap g (client m) tok = ((Some bs, conf, None), cl)"
      and len: "length bs = 4"
      and strong: "\<not> MinSSF (config m) > gss_SSF g cl + ExternalSSF (config m)"
      and c_ok: "spec_conf_ok (qop m) (bs ! 0) (config m) (unat (gss_SSF g cl))"
  shows "(let q = (if ExtraProps (config m) ''ad_compat'' \<in>
                      {Some ''1'', Some ''y'', Some ''on'', Some ''t''}
                   then layerConfidentiality OR layerIntegrity else layerConfidentiality);
              r = stepSSFCap g m tok
          in r = stepSSFCap_finish g (m\<lparr>client := cl, mech_ssf := gss_SSF g cl\<rparr>) q bs \<and>
             (snd (fst r) = None \<longrightarrow>
                (\<exists>b1 b2 b3. gss_Wrap g cl (Some [q, b1, b2, b3]) False =
                   ((fst (fst r), None), client (snd r)))))"
proof -
  define q where "q = (if ExtraProps (config m) ''ad_compat'' \<in>
                      {Some ''1'', Some ''y'', Some ''on'', Some ''t''}
            then layerConfidentiality OR layerIntegrity else layerConfidentiality)"
  let ?m2 = "m\<lparr>client := cl, mech_ssf := gss_SSF g cl\<rparr>"
  have qc: "(case ExtraProps (config m) ''ad_compat'' of
              Some val \<Rightarrow> (if isTrue val then layerConfidentiality OR layerIntegrity
                           else layerConfidentiality)
            | None \<Rightarrow> layerConfidentiality) = q"
    by (auto simp: q_def isTrue_def split: option.splits)
  have r: "stepSSFCap g m tok = stepSSFCap_finish g ?m2 q bs"
    using stepSSFCap_unwrapped [OF unwrap len] strong c_ok
      stepSSFCap_choice_spec [of "m\<lparr>client := cl\<rparr>" "bs ! 0" "gss_SSF g cl"]
    by (simp add: qc)
  have w: "snd (fst (stepSSFCap g m tok)) = None \<longrightarrow>
        (\<exists>b1 b2 b3. gss_Wrap g cl (Some [q, b1, b2, b3]) False =
           ((fst (fst (stepSSFCap g m tok)), None), client (snd (stepSSFCap g m tok))))"
  proof
    assume "snd (fst (stepSSFCap g m tok)) = None"
    then have ok': "snd (fst (stepSSFCap_finish g ?m2 q bs)) = None" by (simp add: r)
    have "\<exists>b1 b2 b3. stepSSFCap_dataOut (config m) q = [q, b1, b2, b3]"
      unfolding stepSSFCap_dataOut_spec spec_reply_def Let_def by (simp split: if_splits)
    then obtain b1 b2 b3 where d: "stepSSFCap_dataOut (config m) q = [q, b1, b2, b3]" by blast
    from stepSSFCap_finish_success(1) [OF ok']
    have "gss_Wrap g cl (Some [q, b1, b2, b3]) False =
           ((fst (fst (stepSSFCap g m tok)), None), client (snd (stepSSFCap g m tok)))"
      by (simp add: r d)
    then show "\<exists>b1 b2 b3. gss_Wrap g cl (Some [q, b1, b2, b3]) False =
           ((fst (fst (stepSSFCap g m tok)), None), client (snd (stepSSFCap g m tok)))"
      by blast
  qed
  show ?thesis unfolding Let_def q_def [symmetric] using r w by (rule conjI)
qed

text \<open>
  The value "1" gives the mask 6; the values "true", "yes" and "Y" give the mask 4.
\<close>

theorem ad_compat_carve_out_witness:
  "fst (stepSSFCap (stubGSS 56 48)
     (offerMech (stubConfig 0 256 0 65536 False [''ad_compat'' \<mapsto> ''1'']) 7)
     (Some [7, 0, 0, 0])) = (Some [6, 1, 0, 0], None) \<and>
   fst (stepSSFCap (stubGSS 56 48)
     (offerMech (stubConfig 0 256 0 65536 False [''ad_compat'' \<mapsto> ''true'']) 7)
     (Some [7, 0, 0, 0])) = (Some [4, 1, 0, 0], None) \<and>
   fst (stepSSFCap (stubGSS 56 48)
     (offerMech (stubConfig 0 256 0 65536 False [''ad_compat'' \<mapsto> ''yes'']) 7)
     (Some [7, 0, 0, 0])) = (Some [4, 1, 0, 0], None) \<and>
   fst (stepSSFCap (stubGSS 56 48)
     (offerMech (stubConfig 0 256 0 65536 False [''ad_compat'' \<mapsto> ''Y'']) 7)
     (Some [7, 0, 0, 0])) = (Some [4, 1, 0, 0], None)"
proof -
  have w: "fst (stepSSFCap (stubGSS 56 48)
             (offerMech (stubConfig 0 256 0 65536 False [''ad_compat'' \<mapsto> v]) 7)
             (Some [7, 0, 0, 0])) =
           (Some [if v \<in> {''1'', ''y'', ''on'', ''t''} then 6 else 4, 1, 0, 0], None)" for v
  proof -
    let ?g = "stubGSS 56 48"
    let ?m = "offerMech (stubConfig 0 256 0 65536 False [''ad_compat'' \<mapsto> v]) 7"
    have u: "gss_Unwrap ?g (client ?m) (Some [7, 0, 0, 0]) = ((Some [7, 0, 0, 0], False, None), True)"
      by (simp add: stubGSS_def offerMech_def gssapi_NewMech_def)
    have l: "length [7::byte, 0, 0, 0] = 4" by simp
    have s: "\<not> MinSSF (config ?m) > gss_SSF ?g True + ExternalSSF (config ?m)"
      by (simp add: stubGSS_def offerMech_def gssapi_NewMech_def stubConfig_def)
    have c: "spec_conf_ok (qop ?m) ([7, 0, 0, 0] ! 0) (config ?m) (unat (gss_SSF ?g True))"
      by (simp add: spec_conf_ok_def spec_allowedSSF_def spec_needSSF_def stubGSS_def
          offerMech_def gssapi_NewMech_def stubConfig_def)
    have "stepSSFCap ?g ?m (Some [7, 0, 0, 0]) =
          stepSSFCap_finish ?g (?m\<lparr>client := True, mech_ssf := 56\<rparr>)
            (if v \<in> {''1'', ''y'', ''on'', ''t''} then 6 else 4) [7, 0, 0, 0]"
      using ad_compat_carve_out [OF u l s c]
      by (simp add: Let_def layer_defs stubGSS_def offerMech_def gssapi_NewMech_def
          stubConfig_def)
    then show ?thesis
      by (simp add: stepSSFCap_finish_def stepSSFCap_dataOut_def serverMaxInput_def
          minUint_def Let_def offerMech_def gssapi_NewMech_def stubConfig_def stubGSS_def)
  qed
  show ?thesis
    using w [of "''1''"] w [of "''true''"] w [of "''yes''"] w [of "''Y''"] by simp
qed

text \<open>
  Claim C7. A step never changes the configuration, and it either leaves the state as it
  is or moves it from \<open>stateAuthenticating\<close> to \<open>stateSSFCap\<close> (outside HTTP mode), from
  \<open>stateAuthenticating\<close> to \<open>stateAuthenticated\<close> (in HTTP mode), or from \<open>stateSSFCap\<close>
  to \<open>stateAuthenticated\<close>; so along any sequence of steps the state never goes back. In
  \<open>stateAuthenticated\<close> every step, whatever its token, fails with
  \<open>ErrAlreadyEstablished\<close> and leaves the whole mechanism, its state and its negotiated
  parameters included, unchanged.
\<close>

theorem handshake_state_monotonic:
  "config (snd (GSSAPIMech_Step g m tok)) = config m \<and>
   (state (snd (GSSAPIMech_Step g m tok)) = state m \<or>
    state m = stateAuthenticating \<and> \<not> HTTPMode (config m) \<and>
      state (snd (GSSAPIMech_Step g m tok)) = stateSSFCap \<or>
    state m = stateAuthenticating \<and> HTTPMode (config m) \<and>
      state (snd (GSSAPIMech_Step g m tok)) = stateAuthenticated \<or>
    state m = stateSSFCap \<and> state (snd (GSSAPIMech_Step g m tok)) = stateAuthenticated) \<and>
   state_rank (state m) \<le> state_rank (state (run_steps g m toks)) \<and>
   (state m = stateAuthenticated \<longrightarrow>
      GSSAPIMech_Step g m tok = ((None, Some ErrAlreadyEstablished), m) \<and>
      run_steps g m toks = m)"
proof (intro conjI impI)
  show "config (snd (GSSAPIMech_Step g m tok)) = config m"
    using Step_transition [of g m tok] by (rule conjunct1)
  show "state (snd (GSSAPIMech_Step g m tok)) = state m \<or>
    state m = stateAuthenticating \<and> \<not> HTTPMode (config m) \<and>
      state (snd (GSSAPIMech_Step g m tok)) = stateSSFCap \<or>
    state m = stateAuthenticating \<and> HTTPMode (config m) \<and>
      state (snd (GSSAPIMech_Step g m tok)) = stateAuthenticated \<or>
    state m = stateSSFCap \<and> state (snd (GSSAPIMech_Step g m tok)) = stateAuthenticated"
    using Step_transition [of g m tok] by (rule conjunct2)
  show "state_rank (state m) \<le> state_rank (state (run_steps g m toks))"
    by (rule run_steps_rank)
next
  assume "state m = stateAuthenticated"
  then show "GSSAPIMech_Step g m tok = ((None, Some ErrAlreadyEstablished), m)"
    by (rule Step_established)
next
  assume "state m = stateAuthenticated"
  then show "run_steps g m toks = m" by (rule run_steps_established)
qed

text \<open>
  A handshake against the stand-in context: the first step leads to \<open>stateSSFCap\<close> (to
  \<open>stateAuthenticated\<close> in HTTP mode), the peer's offer to \<open>stateAuthenticated\<close>, and one
  step more fails with \<open>ErrAlreadyEstablished\<close>.
\<close>

theorem handshake_state_monotonic_witness:
  "state (run_steps (stubGSS 56 48)
      (gssapi_NewMech False (stubConfig 0 256 0 65536 False Map.empty)) [None]) = stateSSFCap \<and>
   state (run_steps (stubGSS 56 48)
      (gssapi_NewMech False (stubConfig 0 256 0 65536 True Map.empty)) [None]) = stateAuthenticated \<and>
   GSSAPIMech_Step (stubGSS 56 48)
     (run_steps (stubGSS 56 48)
        (gssapi_NewMech False (stubConfig 0 256 0 65536 False Map.empty))
        [None, Some [7, 0, 0, 0]]) (Some []) =
     ((None, Some ErrAlreadyEstablished),
      run_steps (stubGSS 56 48)
        (gssapi_NewMech False (stubConfig 0 256 0 65536 False Map.empty))
        [None, Some [7, 0, 0, 0]])"
proof -
  let ?g = "stubGSS 56 48"
  let ?m0 = "gssapi_NewMech False (stubConfig 0 256 0 65536 False Map.empty)"
  let ?h0 = "gssapi_NewMech False (stubConfig 0 256 0 65536 True Map.empty)"
  have s1: "snd (GSSAPIMech_Step ?g ?m0 None) =
            ?m0\<lparr>client := True, qop := 7, state := stateSSFCap\<rparr>"
    by (simp add: GSSAPIMech_Step_def stepAuthenticating_def stepAuthenticating_first_def
        Let_def gssapi_NewMech_def stubConfig_def stubGSS_def layer_defs state_defs)
  have h1: "snd (GSSAPIMech_Step ?g ?h0 None) =
            ?h0\<lparr>client := True, qop := 7, state := stateAuthenticated\<rparr>"
    by (simp add: GSSAPIMech_Step_def stepAuthenticating_def stepAuthenticating_first_def
        Let_def gssapi_NewMech_def stubConfig_def stubGSS_def layer_defs state_defs)
  have s2: "state (snd (GSSAPIMech_Step ?g
              (?m0\<lparr>client := True, qop := 7, state := stateSSFCap\<rparr>) (Some [7, 0, 0, 0]))) =
            stateAuthenticated"
    by (simp add: GSSAPIMech_Step_def stepSSFCap_def stepSSFCap_choice_def
        stepSSFCap_finish_def stepSSFCap_allowedSSF_def stepSSFCap_needSSF_def Let_def
        lenBytes_def gssapi_NewMech_def stubConfig_def stubGSS_def layer_defs state_defs)
  have A: "state (run_steps ?g ?m0 [None]) = stateSSFCap" by (simp add: s1)
  have B: "state (run_steps ?g ?h0 [None]) = stateAuthenticated" by (simp add: h1)
  have C: "state (run_steps ?g ?m0 [None, Some [7, 0, 0, 0]]) = stateAuthenticated"
    by (simp add: s1 s2)
  have D: "GSSAPIMech_Step ?g (run_steps ?g ?m0 [None, Some [7, 0, 0, 0]]) (Some []) =
           ((None, Some ErrAlreadyEstablished), run_steps ?g ?m0 [None, Some [7, 0, 0, 0]])"
    using handshake_state_monotonic [of ?g "run_steps ?g ?m0 [None, Some [7, 0, 0, 0]]" "Some []" "[]"]
      C by blast
  from A B D show ?thesis by (intro conjI)
qed

text \<open>
  Claim C9. For a session whose mechanism is established with a negotiated strength of 0,
  \<open>Encode\<close> and \<open>Decode\<close> of the session return their input unchanged and leave the
  session as it is, whatever the mechanism's own \<open>Encode\<close> and \<open>Decode\<close> would do (the
  method table is arbitrary); the GSSAPI mechanism's own \<open>Encode\<close> and \<open>Decode\<close> fail
  with their no-security-layer errors whenever its strength is 0.
\<close>

theorem no_layer_passthrough:
  "(mech c = Some mi \<and> IsEstablished ops mi \<and> SSF (GetContextParams ops mi) = 0 \<longrightarrow>
      SaslClient_Encode ops c input = ((input, None), c) \<and>
      SaslClient_Decode ops c input = ((input, None), c)) \<and>
   (mech_ssf gm = 0 \<longrightarrow>
      GSSAPIMech_Encode g gm input = ((None, Some ErrEncodeNoLayer), gm) \<and>
      GSSAPIMech_Decode g gm input = ((None, Some ErrDecodeNoLayer), gm))"
  by (simp add: SaslClient_Encode_def SaslClient_Decode_def SaslClient_IsEstablished_def
      GSSAPIMech_Encode_def GSSAPIMech_Decode_def)

text \<open>
  The same three bytes through a session bound to a GSSAPI mechanism established without a
  layer, and through that mechanism directly.
\<close>

theorem no_layer_passthrough_witness:
  "SaslClient_Encode (GSSAPIMech_Mech (stubGSS 0 0) Map.empty) noLayerClient (Some [1, 2, 3]) =
     ((Some [1, 2, 3], None), noLayerClient) \<and>
   SaslClient_Decode (GSSAPIMech_Mech (stubGSS 0 0) Map.empty) noLayerClient (Some [1, 2, 3]) =
     ((Some [1, 2, 3], None), noLayerClient) \<and>
   GSSAPIMech_Encode (stubGSS 0 0) noLayerMech (Some [1, 2, 3]) =
     ((None, Some ErrEncodeNoLayer), noLayerMech) \<and>
   GSSAPIMech_Decode (stubGSS 0 0) noLayerMech (Some [1, 2, 3]) =
     ((None, Some ErrDecodeNoLayer), noLayerMech)"
proof -
  let ?ops = "GSSAPIMech_Mech (stubGSS 0 0) Map.empty"
  have h: "mech noLayerClient = Some noLayerMech \<and> IsEstablished ?ops noLayerMech \<and>
           SSF (GetContextParams ?ops noLayerMech) = 0"
    by (simp add: noLayerClient_def GSSAPIMech_Mech_def GSSAPIMech_IsEstablished_def
        GSSAPIMech_ContextParams_def noLayerMech_simps)
  note t = no_layer_passthrough [of noLayerClient noLayerMech ?ops "Some [1, 2, 3]"
      noLayerMech "stubGSS 0 0"]
  from t [THEN conjunct1, rule_format, OF h]
       t [THEN conjunct2, rule_format, OF noLayerMech_simps(2)]
  show ?thesis by simp
qed

text \<open>
  Claim C8 fails on the code. \<open>Mechs\<close> ranges over a Go map, so for the two registrations
  of \<open>TestMechs\<close> both orders are results of a call (the test expects the first only), and
  for the three mechanisms of \<open>TestSaslClientStart\<close> two calls may hand \<open>NewSaslClient\<close>
  different default lists, on which \<open>Start\<close> selects different mechanisms.
\<close>

theorem Mechs_order_not_determined:
  "Mechs mechsTestRegistry [''TEST2'', ''TEST3''] \<and>
   Mechs mechsTestRegistry [''TEST3'', ''TEST2''] \<and>
   Mechs testRegistry [''MECH1'', ''MECH2'', ''MECH3''] \<and>
   Mechs testRegistry [''MECH3'', ''MECH2'', ''MECH1''] \<and>
   mech (snd (SaslClient_Start mockMech_Mech testRegistry
          (defaultClient [''MECH1'', ''MECH2'', ''MECH3'']))) = Some mockMech1 \<and>
   mech (snd (SaslClient_Start mockMech_Mech testRegistry
          (defaultClient [''MECH3'', ''MECH2'', ''MECH1'']))) = Some mockMech3"
proof -
  have m: "Mechs mechsTestRegistry [''TEST2'', ''TEST3'']"
          "Mechs mechsTestRegistry [''TEST3'', ''TEST2'']"
    by (auto simp: Mechs_def mechsTestRegistry_def)
  have t: "Mechs testRegistry [''MECH1'', ''MECH2'', ''MECH3'']"
          "Mechs testRegistry [''MECH3'', ''MECH2'', ''MECH1'']"
    by (auto simp: Mechs_def testRegistry_def)
  have c: "defaultClient l =
      \<lparr>mech = None, service = ''imap'', mechList = l, serverFQDN = [],
       minSSF = 0, maxSSF = NOT 0, maxBufSize = 65536,
       secProps = SecNoAnonymous OR SecNoPlainText,
       extProps = \<lparr>ssf = 0\<rparr>, needHTTP = False, channelBindings = None,
       extraProps = Map.empty\<rparr>" for l
    by (simp add: defaultClient_def NewSaslClient_def Let_def)
  have s: "mech (snd (SaslClient_Start mockMech_Mech testRegistry
          (defaultClient [''MECH1'', ''MECH2'', ''MECH3'']))) = Some mockMech1"
          "mech (snd (SaslClient_Start mockMech_Mech testRegistry
          (defaultClient [''MECH3'', ''MECH2'', ''MECH1'']))) = Some mockMech3"
    by (simp_all add: c SaslClient_Start_def Start_need_def channelBindingDisposition_of_def
        testRegistry_Properties Sec_defs Feat_defs Let_def Start_instantiate_def NewMech_def
        testRegistry_def mockMech_Mech_def SaslClient_Step_def SaslClient_IsEstablished_def
        MechProps_zero_def Properties_def)
  from m t s show ?thesis by (intro conjI)
qed

end
